theory Spec2Isabelle
  imports Main "HOL-Library.Word"
begin

section \<open>The Seek thermal camera wrapper (src/native/seek\_wrapper.cpp)\<close>

text \<open>
  The file under verification is a C-linkage wrapper with four functions, \<open>seek_open\<close>,
  \<open>seek_close\<close>, \<open>seek_get_dimensions\<close> and \<open>seek_read_frame\<close>, over the camera classes
  of the LibSeek library and OpenCV's \<open>cv::Mat\<close>. Both libraries are third-party code:
  here they are a parameter (the record \<open>driver\<close> below), and every theorem holds for
  every driver unless it names a concrete one.

  C \<open>int\<close> values are modelled as \<open>int\<close>. The wrapper does arithmetic on them in one
  place only, \<open>frame.rows * frame.cols\<close> in \<open>seek_read_frame\<close>, and there the 32-bit range
  is written out: a product outside it is signed overflow, which is a fault of the model.
\<close>

subsection \<open>Pointers and faults\<close>

text \<open>
  A pointer is null or the identity of an allocation. Identities are never handed out
  twice, so a pointer to a deleted object stays dangling: in C++ every use of such a
  pointer value is undefined, whether or not the allocator reuses the storage.
\<close>

datatype ptr = NULL | Addr nat

text \<open>
  Undefined behaviour of the C++ is a value of the model: a function that would run into
  it returns \<open>Inl\<close> of the first undefined operation on its path.
\<close>

datatype fault =
    UseAfterFree      \<comment> \<open>a handle that is not (or no longer) allocated is dereferenced\<close>
  | CameraDeref       \<comment> \<open>a method is called through \<open>handle->camera\<close>, which points to no object\<close>
  | WildWrite         \<comment> \<open>a store through a caller pointer that points to no object\<close>
  | SignedOverflow    \<comment> \<open>\<open>rows * cols\<close> leaves the range of \<open>int\<close>\<close>
  | SourceOverrun     \<comment> \<open>\<open>memcpy\<close> reads past the end of the frame's storage\<close>
  | BufferOverrun     \<comment> \<open>\<open>memcpy\<close> writes past the end of the caller's buffer\<close>

subsection \<open>cv::Mat and the camera classes\<close>

text \<open>
  Of a \<open>cv::Mat\<close> the wrapper reads \<open>rows\<close>, \<open>cols\<close> and the storage that
  \<open>ptr<uint16_t>()\<close> points to; \<open>data\<close> is that storage as 16-bit samples. A
  default-constructed matrix is empty.
\<close>

record Mat =
  rows :: int
  cols :: int
  data :: "16 word list"

definition Mat_empty :: Mat where
  "Mat_empty = \<lparr>rows = 0, cols = 0, data = []\<rparr>"

text \<open>
  Element access of a continuous single-channel 16-bit matrix, which is what LibSeek hands
  out: row \<open>r\<close> starts \<open>r * cols\<close> samples into the storage.
\<close>

definition Mat_at :: "Mat \<Rightarrow> int \<Rightarrow> int \<Rightarrow> 16 word" where
  "Mat_at m r c = data m ! nat (r * cols m + c)"

text \<open>
  A matrix as OpenCV builds it for such a frame: non-negative sides, as many samples as
  \<open>rows * cols\<close>, and a pixel count that fits an \<open>int\<close>.
\<close>

definition INT_MAX :: int where
  "INT_MAX = 2147483647"

definition INT_MIN :: int where
  "INT_MIN = - 2147483648"

definition Mat_ok :: "Mat \<Rightarrow> bool" where
  "Mat_ok m \<longleftrightarrow> 0 \<le> rows m \<and> 0 \<le> cols m \<and> rows m * cols m \<le> INT_MAX
     \<and> int (length (data m)) = rows m * cols m"

text \<open>
  The LibSeek classes. \<open>'cam\<close> is the state of a camera object, whatever the library and
  the device behind it keep; virtual dispatch through \<open>SeekCam*\<close> is inside the functions.
  \<^item> \<open>new_compact ffc\<close>, \<open>new_pro ffc\<close>: the constructors \<open>SeekThermal(ffc)\<close> and
    \<open>SeekThermalPro(ffc)\<close>; \<open>None\<close> when the constructor throws.
  \<^item> \<open>cam_open c\<close>: \<open>open()\<close>, its result and the object afterwards.
  \<^item> \<open>cam_read c m\<close>: \<open>read(m)\<close> on the matrix passed by reference: its result, the
    object and the matrix afterwards.
  \<^item> \<open>cam_close c\<close>: \<open>close()\<close>.
  The wrapper catches exceptions around the constructors only, so \<open>open()\<close> and
  \<open>read()\<close> are taken to report failure through their result, as the wrapper expects.
  What the device will do is part of \<open>'cam\<close>; a driver is any such five functions.
\<close>

record 'cam driver =
  new_compact :: "string \<Rightarrow> 'cam option"
  new_pro :: "string \<Rightarrow> 'cam option"
  cam_open :: "'cam \<Rightarrow> bool \<times> 'cam"
  cam_read :: "'cam \<Rightarrow> Mat \<Rightarrow> bool \<times> 'cam \<times> Mat"
  cam_close :: "'cam \<Rightarrow> 'cam"

subsection \<open>The handle and the memory\<close>

text \<open>
  \<open>struct SeekHandle\<close>. The two \<open>unique_ptr\<close> members own a camera object or are empty;
  \<open>camera\<close> is the raw pointer that aliases one of them, so it is modelled as the name of
  the member it points into.
\<close>

datatype SeekCamRef = CompactObj | ProObj

record 'cam SeekHandle =
  compact :: "'cam option"
  pro :: "'cam option"
  camera :: "SeekCamRef option"
  frame :: Mat
  width :: int
  height :: int

text \<open>\<open>new SeekHandle()\<close>: the default member initialisers.\<close>

definition SeekHandle_new :: "'cam SeekHandle" where
  "SeekHandle_new =
     \<lparr>compact = None, pro = None, camera = None, frame = Mat_empty, width = 0, height = 0\<rparr>"

text \<open>The object \<open>handle->camera\<close> points to, and the same object after a method ran on it.\<close>

definition camera_obj :: "'cam SeekHandle \<Rightarrow> 'cam option" where
  "camera_obj H =
     (case camera H of
        None \<Rightarrow> None
      | Some CompactObj \<Rightarrow> compact H
      | Some ProObj \<Rightarrow> pro H)"

definition camera_obj_update :: "'cam \<Rightarrow> 'cam SeekHandle \<Rightarrow> 'cam SeekHandle" where
  "camera_obj_update c H =
     (case camera H of
        None \<Rightarrow> H
      | Some CompactObj \<Rightarrow> H\<lparr>compact := Some c\<rparr>
      | Some ProObj \<Rightarrow> H\<lparr>pro := Some c\<rparr>)"

text \<open>
  What the wrapper asks of the library, in order. Every event carries the handle it was
  made for; the flag is the call's outcome (for \<open>CamNew\<close>: the constructor returned).
\<close>

datatype event =
    CamNew ptr SeekCamRef string bool
  | CamOpen ptr bool
  | CamRead ptr bool
  | CamClose ptr
  | CamDelete ptr SeekCamRef

text \<open>
  The memory the four functions work on: the allocated handles, the next allocation
  identity, the caller's \<open>int\<close> objects and \<open>uint16_t\<close> arrays, and the calls made to the
  library so far. Handles, \<open>int\<close> objects and arrays live in three separate stores, so a
  pointer of one kind never aliases an object of another; two \<open>int*\<close> may be equal.
\<close>

record 'cam world =
  live :: "nat \<rightharpoonup> 'cam SeekHandle"
  brk :: nat
  cells :: "nat \<rightharpoonup> int"
  bufs :: "nat \<rightharpoonup> 16 word list"
  trace :: "event list"

definition log_event :: "event \<Rightarrow> 'cam world \<Rightarrow> 'cam world" where
  "log_event e w = w\<lparr>trace := trace w @ [e]\<rparr>"

definition put_handle :: "nat \<Rightarrow> 'cam SeekHandle \<Rightarrow> 'cam world \<Rightarrow> 'cam world" where
  "put_handle a H w = w\<lparr>live := (live w)(a \<mapsto> H)\<rparr>"

text \<open>
  \<open>delete handle\<close> on an allocated handle: the members are destroyed in reverse order of
  declaration (\<open>pro\<close> before \<open>compact\<close>), each \<open>unique_ptr\<close> deleting the object it owns, and
  the storage is given back.
\<close>

definition delete_events :: "nat \<Rightarrow> 'cam SeekHandle \<Rightarrow> event list" where
  "delete_events a H =
     (case pro H of None \<Rightarrow> [] | Some _ \<Rightarrow> [CamDelete (Addr a) ProObj]) @
     (case compact H of None \<Rightarrow> [] | Some _ \<Rightarrow> [CamDelete (Addr a) CompactObj])"

definition delete_handle :: "nat \<Rightarrow> 'cam SeekHandle \<Rightarrow> 'cam world \<Rightarrow> 'cam world" where
  "delete_handle a H w =
     w\<lparr>live := (live w)(a := None), trace := trace w @ delete_events a H\<rparr>"

text \<open>The allocator's invariant: every allocated handle is older than the next identity.\<close>

definition heap_ok :: "'cam world \<Rightarrow> bool" where
  "heap_ok w \<longleftrightarrow> (\<forall>a. brk w \<le> a \<longrightarrow> live w a = None)"

subsection \<open>seek\_open\<close>

definition SEEK_CAMERA_COMPACT :: int where
  "SEEK_CAMERA_COMPACT = 0"

definition SEEK_CAMERA_PRO :: int where
  "SEEK_CAMERA_PRO = 1"

text \<open>
  The \<open>try\<close> block, lines 35 to 46: \<open>None\<close> when the constructor threw and the \<open>catch\<close>
  ran, else the handle with the object and \<open>camera\<close> set. The event is the constructor
  call that was made.
\<close>

definition seek_open_construct ::
  "'cam driver \<Rightarrow> nat \<Rightarrow> int \<Rightarrow> string \<Rightarrow> 'cam SeekHandle \<Rightarrow> 'cam SeekHandle option \<times> event"
where
  "seek_open_construct drv a camera_type ffc H =
     (if camera_type = SEEK_CAMERA_PRO then
        (case new_pro drv ffc of
           None \<Rightarrow> (None, CamNew (Addr a) ProObj ffc False)
         | Some c \<Rightarrow> (Some (H\<lparr>pro := Some c, camera := Some ProObj\<rparr>),
                      CamNew (Addr a) ProObj ffc True))
      else
        (case new_compact drv ffc of
           None \<Rightarrow> (None, CamNew (Addr a) CompactObj ffc False)
         | Some c \<Rightarrow> (Some (H\<lparr>compact := Some c, camera := Some CompactObj\<rparr>),
                      CamNew (Addr a) CompactObj ffc True)))"

text \<open>
  \<open>seek_open(camera_type, ffc_path)\<close>; \<open>ffc_path\<close> is \<open>None\<close> for a null pointer. The
  result is the returned pointer and the memory afterwards. After the \<open>try\<close> block
  \<open>handle->camera\<close> points to the object just made, so the test \<open>!handle->camera\<close> of
  line 48 is the test that there is no such object. \<open>new SeekHandle()\<close> is taken to
  succeed; the new handle gets the next allocation identity.
\<close>

definition seek_open ::
  "'cam driver \<Rightarrow> 'cam world \<Rightarrow> int \<Rightarrow> string option \<Rightarrow> ptr \<times> 'cam world"
where
  "seek_open drv w camera_type ffc_path =
     (let ffc = (case ffc_path of None \<Rightarrow> [] | Some s \<Rightarrow> s);
          a = brk w;
          w0 = put_handle a SeekHandle_new (w\<lparr>brk := Suc (brk w)\<rparr>)
      in case seek_open_construct drv a camera_type ffc SeekHandle_new of
           (None, e) \<Rightarrow> (NULL, delete_handle a SeekHandle_new (log_event e w0))
         | (Some H1, e) \<Rightarrow>
             let w1 = put_handle a H1 (log_event e w0) in
             (case camera_obj H1 of
                None \<Rightarrow> (NULL, delete_handle a H1 w1)
              | Some c \<Rightarrow>
                  let (opened, c1) = cam_open drv c;
                      H2 = camera_obj_update c1 H1;
                      w2 = put_handle a H2 (log_event (CamOpen (Addr a) opened) w1)
                  in if \<not> opened then (NULL, delete_handle a H2 w2)
                     else
                       let (got, c2, m) = cam_read drv c1 (frame H2);
                           H3 = camera_obj_update c2 (H2\<lparr>frame := m\<rparr>);
                           w3 = put_handle a H3 (log_event (CamRead (Addr a) got) w2)
                       in if \<not> got then
                            let H4 = camera_obj_update (cam_close drv c2) H3;
                                w4 = put_handle a H4 (log_event (CamClose (Addr a)) w3)
                            in (NULL, delete_handle a H4 w4)
                          else
                            let H5 = H3\<lparr>width := cols (frame H3)\<rparr>;
                                H6 = H5\<lparr>height := rows (frame H5)\<rparr>
                            in (Addr a, put_handle a H6 w3)))"

subsection \<open>seek\_close\<close>

definition seek_close :: "'cam driver \<Rightarrow> 'cam world \<Rightarrow> ptr \<Rightarrow> fault + 'cam world" where
  "seek_close drv w handle =
     (case handle of
        NULL \<Rightarrow> Inr w
      | Addr a \<Rightarrow>
          (case live w a of
             None \<Rightarrow> Inl UseAfterFree
           | Some H \<Rightarrow>
               (case camera H of
                  None \<Rightarrow> Inr (delete_handle a H w)
                | Some _ \<Rightarrow>
                    (case camera_obj H of
                       None \<Rightarrow> Inl CameraDeref
                     | Some c \<Rightarrow>
                         let H1 = camera_obj_update (cam_close drv c) H;
                             H2 = H1\<lparr>camera := None\<rparr>;
                             w1 = put_handle a H2 (log_event (CamClose (Addr a)) w)
                         in Inr (delete_handle a H2 w1)))))"

subsection \<open>seek\_get\_dimensions\<close>

text \<open>\<open>*p = v\<close> for a caller's \<open>int* p\<close> that is not null.\<close>

definition store_int :: "nat \<Rightarrow> int \<Rightarrow> 'cam world \<Rightarrow> fault + 'cam world" where
  "store_int p v w =
     (case cells w p of
        None \<Rightarrow> Inl WildWrite
      | Some _ \<Rightarrow> Inr (w\<lparr>cells := (cells w)(p \<mapsto> v)\<rparr>))"

definition seek_get_dimensions ::
  "'cam world \<Rightarrow> ptr \<Rightarrow> ptr \<Rightarrow> ptr \<Rightarrow> fault + (int \<times> 'cam world)"
where
  "seek_get_dimensions w handle width_p height_p =
     (case (handle, width_p, height_p) of
        (Addr a, Addr pw, Addr ph) \<Rightarrow>
          (case live w a of
             None \<Rightarrow> Inl UseAfterFree
           | Some H \<Rightarrow>
               (case store_int pw (width H) w of
                  Inl f \<Rightarrow> Inl f
                | Inr w1 \<Rightarrow>
                    (case store_int ph (height H) w1 of
                       Inl f \<Rightarrow> Inl f
                     | Inr w2 \<Rightarrow> Inr (1, w2))))
      | _ \<Rightarrow> Inr (0, w))"

subsection \<open>seek\_read\_frame\<close>

text \<open>
  \<open>memcpy(dst, src, n * sizeof(uint16_t))\<close> for a count \<open>n\<close> of samples. A negative
  \<open>n\<close> converts to a \<open>size_t\<close> beyond the size of any object, so the copy overruns its
  source.
\<close>

definition memcpy_u16 :: "16 word list \<Rightarrow> 16 word list \<Rightarrow> int \<Rightarrow> fault + 16 word list" where
  "memcpy_u16 dst src n =
     (if n < 0 \<or> int (length src) < n then Inl SourceOverrun
      else if int (length dst) < n then Inl BufferOverrun
      else Inr (take (nat n) src @ drop (nat n) dst))"

definition seek_read_frame ::
  "'cam driver \<Rightarrow> 'cam world \<Rightarrow> ptr \<Rightarrow> ptr \<Rightarrow> int \<Rightarrow> fault + (int \<times> 'cam world)"
where
  "seek_read_frame drv w handle out_buffer capacity =
     (case (handle, out_buffer) of
        (Addr a, Addr b) \<Rightarrow>
          (if capacity \<le> 0 then Inr (- 1, w)
           else
             (case live w a of
                None \<Rightarrow> Inl UseAfterFree
              | Some H \<Rightarrow>
                  (case camera_obj H of
                     None \<Rightarrow> Inl CameraDeref
                   | Some c \<Rightarrow>
                       let (got, c1, m) = cam_read drv c (frame H);
                           H1 = camera_obj_update c1 (H\<lparr>frame := m\<rparr>);
                           w1 = put_handle a H1 (log_event (CamRead (Addr a) got) w)
                       in if \<not> got then Inr (- 2, w1)
                          else if rows m * cols m < INT_MIN \<or> INT_MAX < rows m * cols m
                          then Inl SignedOverflow
                          else
                            let total_pixels = rows m * cols m
                            in if capacity < total_pixels then Inr (- 3, w1)
                               else
                                 (case bufs w1 b of
                                    None \<Rightarrow> Inl WildWrite
                                  | Some dst \<Rightarrow>
                                      (case memcpy_u16 dst (data m) total_pixels of
                                         Inl f \<Rightarrow> Inl f
                                       | Inr dst' \<Rightarrow>
                                           Inr (total_pixels,
                                                w1\<lparr>bufs := (bufs w1)(b \<mapsto> dst')\<rparr>))))))
      | _ \<Rightarrow> Inr (- 1, w))"

subsection \<open>Callers\<close>

text \<open>The status a call returned, without the memory.\<close>

definition status :: "fault + (int \<times> 'cam world) \<Rightarrow> fault + int" where
  "status r = (case r of Inl f \<Rightarrow> Inl f | Inr (n, _) \<Rightarrow> Inr n)"

text \<open>The memory a call left behind; the memory it started from when it faulted.\<close>

definition after :: "'cam world \<Rightarrow> fault + (int \<times> 'cam world) \<Rightarrow> 'cam world" where
  "after w r = (case r of Inl _ \<Rightarrow> w | Inr (_, w') \<Rightarrow> w')"

text \<open>The geometry stored in a handle, which is what \<open>seek_get_dimensions\<close> reports.\<close>

definition geometry :: "'cam world \<Rightarrow> nat \<Rightarrow> (int \<times> int) option" where
  "geometry w a = (case live w a of None \<Rightarrow> None | Some H \<Rightarrow> Some (width H, height H))"

text \<open>
  A caller that makes the \<open>seek_read_frame\<close> calls of a list, one after the other, each
  with its own handle, buffer and capacity.
\<close>

fun run_reads :: "'cam driver \<Rightarrow> 'cam world \<Rightarrow> (ptr \<times> ptr \<times> int) list \<Rightarrow> fault + 'cam world" where
  "run_reads drv w [] = Inr w"
| "run_reads drv w ((handle, out_buffer, capacity) # calls) =
     (case seek_read_frame drv w handle out_buffer capacity of
        Inl f \<Rightarrow> Inl f
      | Inr (_, w') \<Rightarrow> run_reads drv w' calls)"

subsection \<open>A scripted camera\<close>

text \<open>
  A driver to run the wrapper on: its constructors throw or not, its \<open>open\<close> succeeds or
  not, and its reads follow a script, \<open>None\<close> for a read that fails and \<open>Some m\<close> for one
  that delivers the matrix \<open>m\<close>. A read after the end of the script fails.
\<close>

record sim_cam =
  sim_kind :: SeekCamRef
  sim_ffc :: string
  sim_opens :: bool
  sim_is_open :: bool
  sim_script :: "Mat option list"

definition sim_read :: "sim_cam \<Rightarrow> Mat \<Rightarrow> bool \<times> sim_cam \<times> Mat" where
  "sim_read c m =
     (case sim_script c of
        [] \<Rightarrow> (False, c, m)
      | None # script \<Rightarrow> (False, c\<lparr>sim_script := script\<rparr>, m)
      | Some m' # script \<Rightarrow> (True, c\<lparr>sim_script := script\<rparr>, m'))"

definition sim_new :: "bool \<Rightarrow> bool \<Rightarrow> Mat option list \<Rightarrow> SeekCamRef \<Rightarrow> string \<Rightarrow> sim_cam option" where
  "sim_new constructs opens script kind ffc =
     (if constructs
      then Some \<lparr>sim_kind = kind, sim_ffc = ffc, sim_opens = opens, sim_is_open = False,
                  sim_script = script\<rparr>
      else None)"

definition sim_driver :: "bool \<Rightarrow> bool \<Rightarrow> Mat option list \<Rightarrow> sim_cam driver" where
  "sim_driver constructs opens script =
     \<lparr>new_compact = sim_new constructs opens script CompactObj,
      new_pro = sim_new constructs opens script ProObj,
      cam_open = (\<lambda>c. (sim_opens c, c\<lparr>sim_is_open := sim_opens c\<rparr>)),
      cam_read = sim_read,
      cam_close = (\<lambda>c. c\<lparr>sim_is_open := False\<rparr>)\<rparr>"

text \<open>Two frames: two rows of three samples, and a single sample.\<close>

definition frame23 :: Mat where
  "frame23 = \<lparr>rows = 2, cols = 3, data = [11, 12, 13, 21, 22, 23]\<rparr>"

definition frame11 :: Mat where
  "frame11 = \<lparr>rows = 1, cols = 1, data = [99]\<rparr>"

text \<open>
  A caller's memory before any call: no handle, two \<open>int\<close> objects at 10 and 11 and an
  array of eight samples at 20.
\<close>

definition world0 :: "sim_cam world" where
  "world0 = \<lparr>live = Map.empty, brk = 1, cells = [10 \<mapsto> 0, 11 \<mapsto> 0],
              bufs = [20 \<mapsto> [0, 0, 0, 0, 0, 0, 0, 0]], trace = []\<rparr>"

text \<open>
  A camera that constructs and opens and whose reads are given by the script, and the
  memory after \<open>seek_open(0, nullptr)\<close> on it.
\<close>

definition cam_scripted :: "Mat option list \<Rightarrow> sim_cam driver" where
  "cam_scripted script = sim_driver True True script"

definition opened :: "Mat option list \<Rightarrow> sim_cam world" where
  "opened script = snd (seek_open (cam_scripted script) world0 0 None)"

text \<open>The memory after \<open>seek_close\<close> on the handle that this \<open>seek_open\<close> returned.\<close>

definition closed :: "Mat option list \<Rightarrow> sim_cam world" where
  "closed script =
     (case seek_close (cam_scripted script) (opened script) (Addr 1) of
        Inl _ \<Rightarrow> opened script
      | Inr w \<Rightarrow> w)"

section \<open>Properties\<close>

subsection \<open>Unfolding\<close>

lemmas wrapper_defs = put_handle_def log_event_def delete_handle_def delete_events_def
  camera_obj_def camera_obj_update_def SeekHandle_new_def
  SEEK_CAMERA_PRO_def SEEK_CAMERA_COMPACT_def

lemmas sim_defs = cam_scripted_def sim_driver_def sim_new_def sim_read_def world0_def
  frame23_def frame11_def

subsection \<open>Handles\<close>

lemma camera_obj_update_fields:
  "width (camera_obj_update c H) = width H"
  "height (camera_obj_update c H) = height H"
  "frame (camera_obj_update c H) = frame H"
  "camera (camera_obj_update c H) = camera H"
  by (simp_all add: camera_obj_update_def split: option.splits SeekCamRef.splits)

lemma camera_obj_update_obj:
  "camera_obj H = Some c \<Longrightarrow> camera_obj (camera_obj_update c' H) = Some c'"
  by (auto simp: camera_obj_update_def camera_obj_def split: option.splits SeekCamRef.splits)

lemma heap_ok_fresh: "heap_ok w \<Longrightarrow> (live w)(brk w := None) = live w"
  by (auto simp: heap_ok_def)

subsection \<open>The four paths of seek\_open\<close>

text \<open>
  The constructor throws; \<open>open()\<close> fails; the warm-up read fails; all three succeed.
  Each lemma gives the returned pointer and the whole memory afterwards.
\<close>

lemma construct_not_pro:
  "camera_type \<noteq> SEEK_CAMERA_PRO \<Longrightarrow>
   seek_open_construct drv a camera_type ffc H = seek_open_construct drv a SEEK_CAMERA_COMPACT ffc H"
  by (simp add: seek_open_construct_def SEEK_CAMERA_PRO_def SEEK_CAMERA_COMPACT_def)

lemma seek_open_throws:
  assumes "ffc = (case ffc_path of None \<Rightarrow> [] | Some s \<Rightarrow> s)"
    and "(if camera_type = SEEK_CAMERA_PRO then new_pro drv ffc else new_compact drv ffc) = None"
  shows "seek_open drv w camera_type ffc_path =
    (NULL, w\<lparr>live := (live w)(brk w := None), brk := Suc (brk w),
             trace := trace w @ [CamNew (Addr (brk w))
               (if camera_type = SEEK_CAMERA_PRO then ProObj else CompactObj) ffc False]\<rparr>)"
  using assms
  by (cases "camera_type = SEEK_CAMERA_PRO")
     (simp_all add: seek_open_def seek_open_construct_def wrapper_defs Let_def)

lemma seek_open_open_fails:
  assumes "ffc = (case ffc_path of None \<Rightarrow> [] | Some s \<Rightarrow> s)"
    and "(if camera_type = SEEK_CAMERA_PRO then new_pro drv ffc else new_compact drv ffc) = Some c"
    and "cam_open drv c = (False, c1)"
  shows "seek_open drv w camera_type ffc_path =
    (NULL, w\<lparr>live := (live w)(brk w := None), brk := Suc (brk w),
             trace := trace w @
               [CamNew (Addr (brk w)) (if camera_type = SEEK_CAMERA_PRO then ProObj else CompactObj) ffc True,
                CamOpen (Addr (brk w)) False,
                CamDelete (Addr (brk w)) (if camera_type = SEEK_CAMERA_PRO then ProObj else CompactObj)]\<rparr>)"
  using assms
  by (cases "camera_type = SEEK_CAMERA_PRO")
     (simp_all add: seek_open_def seek_open_construct_def wrapper_defs Let_def)

lemma seek_open_read_fails:
  assumes "ffc = (case ffc_path of None \<Rightarrow> [] | Some s \<Rightarrow> s)"
    and "(if camera_type = SEEK_CAMERA_PRO then new_pro drv ffc else new_compact drv ffc) = Some c"
    and "cam_open drv c = (True, c1)"
    and "cam_read drv c1 Mat_empty = (False, c2, m)"
  shows "seek_open drv w camera_type ffc_path =
    (NULL, w\<lparr>live := (live w)(brk w := None), brk := Suc (brk w),
             trace := trace w @
               [CamNew (Addr (brk w)) (if camera_type = SEEK_CAMERA_PRO then ProObj else CompactObj) ffc True,
                CamOpen (Addr (brk w)) True,
                CamRead (Addr (brk w)) False,
                CamClose (Addr (brk w)),
                CamDelete (Addr (brk w)) (if camera_type = SEEK_CAMERA_PRO then ProObj else CompactObj)]\<rparr>)"
  using assms
  by (cases "camera_type = SEEK_CAMERA_PRO")
     (simp_all add: seek_open_def seek_open_construct_def wrapper_defs Let_def)

lemma seek_open_succeeds:
  assumes "ffc = (case ffc_path of None \<Rightarrow> [] | Some s \<Rightarrow> s)"
    and "(if camera_type = SEEK_CAMERA_PRO then new_pro drv ffc else new_compact drv ffc) = Some c"
    and "cam_open drv c = (True, c1)"
    and "cam_read drv c1 Mat_empty = (True, c2, m)"
  shows "seek_open drv w camera_type ffc_path =
    (Addr (brk w),
     w\<lparr>live := (live w)(brk w \<mapsto>
          (if camera_type = SEEK_CAMERA_PRO
           then \<lparr>compact = None, pro = Some c2, camera = Some ProObj, frame = m,
                  width = cols m, height = rows m\<rparr>
           else \<lparr>compact = Some c2, pro = None, camera = Some CompactObj, frame = m,
                  width = cols m, height = rows m\<rparr>)),
       brk := Suc (brk w),
       trace := trace w @
         [CamNew (Addr (brk w)) (if camera_type = SEEK_CAMERA_PRO then ProObj else CompactObj) ffc True,
          CamOpen (Addr (brk w)) True,
          CamRead (Addr (brk w)) True]\<rparr>)"
  using assms
  by (cases "camera_type = SEEK_CAMERA_PRO")
     (simp_all add: seek_open_def seek_open_construct_def wrapper_defs Let_def)

lemma seek_open_trace_head:
  "\<exists>ok evs. trace (snd (seek_open drv w camera_type ffc_path)) =
     trace w @ CamNew (Addr (brk w)) (if camera_type = SEEK_CAMERA_PRO then ProObj else CompactObj)
       (case ffc_path of None \<Rightarrow> [] | Some s \<Rightarrow> s) ok # evs"
proof -
  define ffc where ffc: "ffc = (case ffc_path of None \<Rightarrow> [] | Some s \<Rightarrow> s)"
  define ctor where
    "ctor = (if camera_type = SEEK_CAMERA_PRO then new_pro drv ffc else new_compact drv ffc)"
  show ?thesis
  proof (cases ctor)
    case None
    then have "(if camera_type = SEEK_CAMERA_PRO then new_pro drv ffc else new_compact drv ffc) = None"
      by (simp add: ctor_def)
    from seek_open_throws [OF ffc this, of w] show ?thesis
      by (intro exI [of _ False] exI [of _ "[]"]) (simp add: ffc)
  next
    case (Some c)
    then have c: "(if camera_type = SEEK_CAMERA_PRO then new_pro drv ffc else new_compact drv ffc) = Some c"
      by (simp add: ctor_def)
    obtain opened c1 where o: "cam_open drv c = (opened, c1)"
      by (cases "cam_open drv c")
    obtain got c2 m where r: "cam_read drv c1 Mat_empty = (got, c2, m)"
      by (cases "cam_read drv c1 Mat_empty")
    show ?thesis
    proof (cases opened)
      case False
      with o have "cam_open drv c = (False, c1)" by simp
      from seek_open_open_fails [OF ffc c this, of w] show ?thesis
        by (intro exI [of _ True]) (simp add: ffc)
    next
      case True
      with o have o': "cam_open drv c = (True, c1)" by simp
      show ?thesis
      proof (cases got)
        case False
        with r have "cam_read drv c1 Mat_empty = (False, c2, m)" by simp
        from seek_open_read_fails [OF ffc c o' this, of w] show ?thesis
          by (intro exI [of _ True]) (simp add: ffc)
      next
        case True
        with r have "cam_read drv c1 Mat_empty = (True, c2, m)" by simp
        from seek_open_succeeds [OF ffc c o' this, of w] show ?thesis
          by (intro exI [of _ True]) (simp add: ffc)
      qed
    qed
  qed
qed

subsection \<open>The four paths of seek\_read\_frame\<close>

text \<open>
  Invalid arguments; the device read fails; the frame is larger than \<open>capacity\<close>; the
  frame is copied. \<open>seek_read_frame_inv\<close> is the converse: a call that returned took one
  of these paths.
\<close>

lemma seek_read_frame_invalid:
  "handle = NULL \<or> out_buffer = NULL \<or> capacity \<le> 0 \<Longrightarrow>
   seek_read_frame drv w handle out_buffer capacity = Inr (- 1, w)"
  by (auto simp: seek_read_frame_def split: ptr.splits)

lemma seek_read_frame_read_fails:
  assumes "live w a = Some H" and "camera_obj H = Some c"
    and "cam_read drv c (frame H) = (False, c1, m)" and "0 < capacity"
  shows "seek_read_frame drv w (Addr a) (Addr b) capacity =
    Inr (- 2, w\<lparr>live := (live w)(a \<mapsto> camera_obj_update c1 (H\<lparr>frame := m\<rparr>)),
                   trace := trace w @ [CamRead (Addr a) False]\<rparr>)"
  using assms by (simp add: seek_read_frame_def put_handle_def log_event_def)

lemma seek_read_frame_too_small:
  assumes "live w a = Some H" and "camera_obj H = Some c"
    and "cam_read drv c (frame H) = (True, c1, m)" and "0 < capacity"
    and "capacity < rows m * cols m" and "rows m * cols m \<le> INT_MAX"
  shows "seek_read_frame drv w (Addr a) (Addr b) capacity =
    Inr (- 3, w\<lparr>live := (live w)(a \<mapsto> camera_obj_update c1 (H\<lparr>frame := m\<rparr>)),
                   trace := trace w @ [CamRead (Addr a) True]\<rparr>)"
  using assms by (simp add: seek_read_frame_def put_handle_def log_event_def INT_MIN_def)

lemma seek_read_frame_copies:
  assumes "live w a = Some H" and "camera_obj H = Some c"
    and "cam_read drv c (frame H) = (True, c1, m)" and "0 < capacity"
    and "rows m * cols m \<le> capacity" and "Mat_ok m"
    and "bufs w b = Some dst" and "rows m * cols m \<le> int (length dst)"
  shows "seek_read_frame drv w (Addr a) (Addr b) capacity =
    Inr (rows m * cols m,
         w\<lparr>live := (live w)(a \<mapsto> camera_obj_update c1 (H\<lparr>frame := m\<rparr>)),
           trace := trace w @ [CamRead (Addr a) True],
           bufs := (bufs w)(b \<mapsto> data m @ drop (nat (rows m * cols m)) dst)\<rparr>)"
proof -
  from \<open>Mat_ok m\<close> have n: "0 \<le> rows m * cols m" "rows m * cols m \<le> INT_MAX"
    and len: "int (length (data m)) = rows m * cols m"
    by (simp_all add: Mat_ok_def)
  from n have lo: "\<not> rows m * cols m < INT_MIN"
    by (simp add: INT_MIN_def)
  from len have tk: "take (nat (rows m * cols m)) (data m) = data m"
    by simp
  have cp: "memcpy_u16 dst (data m) (rows m * cols m) =
      Inr (data m @ drop (nat (rows m * cols m)) dst)"
    using n len tk assms(8) by (simp add: memcpy_u16_def)
  show ?thesis
    using assms(1-5,7) n lo cp
    by (simp add: seek_read_frame_def put_handle_def log_event_def Let_def)
qed

lemma seek_read_frame_inv:
  assumes "seek_read_frame drv w handle out_buffer capacity = Inr (r, w')"
  shows "(r = - 1 \<and> w' = w \<and> (handle = NULL \<or> out_buffer = NULL \<or> capacity \<le> 0)) \<or>
    (\<exists>a b H c got c1 m.
       handle = Addr a \<and> out_buffer = Addr b \<and> 0 < capacity \<and>
       live w a = Some H \<and> camera_obj H = Some c \<and> cam_read drv c (frame H) = (got, c1, m) \<and>
       live w' = (live w)(a \<mapsto> camera_obj_update c1 (H\<lparr>frame := m\<rparr>)) \<and>
       brk w' = brk w \<and> cells w' = cells w \<and>
       trace w' = trace w @ [CamRead (Addr a) got] \<and>
       (if \<not> got then r = - 2 \<and> bufs w' = bufs w
        else if capacity < rows m * cols m then r = - 3 \<and> bufs w' = bufs w
        else r = rows m * cols m \<and> 0 \<le> r \<and>
          (\<exists>dst. bufs w b = Some dst \<and>
             bufs w' = (bufs w)(b \<mapsto> take (nat r) (data m) @ drop (nat r) dst))))"
proof (cases "handle = NULL \<or> out_buffer = NULL \<or> capacity \<le> 0")
  case True
  from seek_read_frame_invalid [OF this, of drv w] assms True show ?thesis
    by simp
next
  case False
  then obtain a b where ab: "handle = Addr a" "out_buffer = Addr b" and cap: "0 < capacity"
    by (cases handle; cases out_buffer) auto
  from assms ab cap obtain H where H: "live w a = Some H"
    by (cases "live w a") (simp_all add: seek_read_frame_def)
  from assms ab cap H obtain c where c: "camera_obj H = Some c"
    by (cases "camera_obj H") (simp_all add: seek_read_frame_def)
  obtain got c1 m where rd: "cam_read drv c (frame H) = (got, c1, m)"
    by (cases "cam_read drv c (frame H)")
  have "live w' = (live w)(a \<mapsto> camera_obj_update c1 (H\<lparr>frame := m\<rparr>)) \<and>
       brk w' = brk w \<and> cells w' = cells w \<and>
       trace w' = trace w @ [CamRead (Addr a) got] \<and>
       (if \<not> got then r = - 2 \<and> bufs w' = bufs w
        else if capacity < rows m * cols m then r = - 3 \<and> bufs w' = bufs w
        else r = rows m * cols m \<and> 0 \<le> r \<and>
          (\<exists>dst. bufs w b = Some dst \<and>
             bufs w' = (bufs w)(b \<mapsto> take (nat r) (data m) @ drop (nat r) dst)))"
    using assms ab cap H c rd
    by (auto simp: seek_read_frame_def Let_def put_handle_def log_event_def memcpy_u16_def
        split: if_splits option.splits sum.splits)
  with ab cap H c rd show ?thesis
    by blast
qed

text \<open>No call of \<open>seek_read_frame\<close> writes the width or height of any handle.\<close>

lemma seek_read_frame_geometry:
  assumes "seek_read_frame drv w handle out_buffer capacity = Inr (r, w')"
  shows "geometry w' = geometry w \<and> cells w' = cells w"
proof -
  from seek_read_frame_inv [OF assms] consider
    (same) "w' = w"
  | (read) a H c1 m where "live w a = Some H"
      "live w' = (live w)(a \<mapsto> camera_obj_update c1 (H\<lparr>frame := m\<rparr>))" "cells w' = cells w"
    by blast
  then show ?thesis
  proof cases
    case same
    then show ?thesis by simp
  next
    case read
    then show ?thesis
      by (simp add: geometry_def fun_eq_iff camera_obj_update_fields)
  qed
qed

lemma run_reads_geometry:
  "run_reads drv w calls = Inr w' \<Longrightarrow> geometry w' = geometry w \<and> cells w' = cells w"
proof (induction calls arbitrary: w)
  case Nil
  then show ?case by simp
next
  case (Cons call calls)
  obtain h b n where call: "call = (h, b, n)"
    by (cases call)
  from Cons.prems call obtain r w1 where
    step: "seek_read_frame drv w h b n = Inr (r, w1)" and rest: "run_reads drv w1 calls = Inr w'"
    by (auto split: sum.splits)
  from seek_read_frame_geometry [OF step] Cons.IH [OF rest] show ?case
    by simp
qed

text \<open>Row \<open>r\<close>, column \<open>c\<close> of a well-formed matrix lies inside its storage.\<close>

lemma Mat_ok_index:
  assumes "Mat_ok m" and "0 \<le> r" and "r < rows m" and "0 \<le> c" and "c < cols m"
  shows "nat (r * cols m + c) < length (data m)"
proof -
  from assms(3) have "r + 1 \<le> rows m" by simp
  with assms(4,5) have "(r + 1) * cols m \<le> rows m * cols m"
    by (intro mult_right_mono) simp_all
  then have "r * cols m + c < rows m * cols m"
    using assms(5) by (simp add: algebra_simps)
  moreover from assms(1) have "int (length (data m)) = rows m * cols m"
    by (simp add: Mat_ok_def)
  moreover from assms(2,4,5) have "0 \<le> r * cols m + c"
    by simp
  ultimately show ?thesis by linarith
qed

subsection \<open>seek\_close and seek\_get\_dimensions\<close>

lemma seek_close_null: "seek_close drv w NULL = Inr w"
  by (simp add: seek_close_def)

lemma seek_close_live:
  assumes "live w a = Some H" and "camera_obj H = Some c"
  shows "seek_close drv w (Addr a) =
    Inr (w\<lparr>live := (live w)(a := None),
           trace := trace w @ CamClose (Addr a) # delete_events a H\<rparr>)"
proof -
  from assms(2) obtain k where k: "camera H = Some k"
    by (cases "camera H") (simp_all add: camera_obj_def)
  have ev: "delete_events a ((camera_obj_update (cam_close drv c) H)\<lparr>camera := None\<rparr>) =
      delete_events a H"
    using assms(2) k
    by (cases k) (simp_all add: delete_events_def camera_obj_update_def camera_obj_def)
  show ?thesis
    using assms k ev
    by (simp add: seek_close_def Let_def put_handle_def log_event_def delete_handle_def)
qed

lemma seek_close_dangling:
  "live w a = None \<Longrightarrow> seek_close drv w (Addr a) = Inl UseAfterFree"
  by (simp add: seek_close_def)

lemma seek_get_dimensions_ok:
  assumes "live w a = Some H" and "pw \<in> dom (cells w)" and "ph \<in> dom (cells w)"
  shows "seek_get_dimensions w (Addr a) (Addr pw) (Addr ph) =
    Inr (1, w\<lparr>cells := (cells w)(pw \<mapsto> width H, ph \<mapsto> height H)\<rparr>)"
  using assms by (auto simp: seek_get_dimensions_def store_int_def)

lemma seek_get_dimensions_dangling:
  "live w a = None \<Longrightarrow> seek_get_dimensions w (Addr a) (Addr pw) (Addr ph) = Inl UseAfterFree"
  by (simp add: seek_get_dimensions_def)

lemma seek_get_dimensions_zero:
  "seek_get_dimensions w handle width_p height_p = Inr (0, w') \<Longrightarrow>
   handle = NULL \<or> width_p = NULL \<or> height_p = NULL"
  by (auto simp: seek_get_dimensions_def store_int_def split: ptr.splits option.splits)

subsection \<open>Runs on the scripted camera\<close>

lemma heap_ok_world0: "heap_ok world0"
  by (simp add: heap_ok_def world0_def)

lemma seek_open_scripted:
  "seek_open (cam_scripted (Some m # script)) world0 camera_type None =
     (Addr 1,
      \<lparr>live = [1 \<mapsto>
         (if camera_type = SEEK_CAMERA_PRO
          then \<lparr>compact = None,
                 pro = Some \<lparr>sim_kind = ProObj, sim_ffc = [], sim_opens = True,
                             sim_is_open = True, sim_script = script\<rparr>,
                 camera = Some ProObj, frame = m, width = cols m, height = rows m\<rparr>
          else \<lparr>compact = Some \<lparr>sim_kind = CompactObj, sim_ffc = [], sim_opens = True,
                                 sim_is_open = True, sim_script = script\<rparr>,
                 pro = None, camera = Some CompactObj, frame = m,
                 width = cols m, height = rows m\<rparr>)],
       brk = 2, cells = [10 \<mapsto> 0, 11 \<mapsto> 0],
       bufs = [20 \<mapsto> [0, 0, 0, 0, 0, 0, 0, 0]],
       trace = [CamNew (Addr 1) (if camera_type = SEEK_CAMERA_PRO then ProObj else CompactObj) [] True,
                CamOpen (Addr 1) True, CamRead (Addr 1) True]\<rparr>)"
proof -
  let ?D = "cam_scripted (Some m # script)"
  let ?k = "if camera_type = SEEK_CAMERA_PRO then ProObj else CompactObj"
  let ?c = "\<lparr>sim_kind = ?k, sim_ffc = [], sim_opens = True, sim_is_open = False,
             sim_script = Some m # script\<rparr>"
  have f: "[] = (case None :: string option of None \<Rightarrow> [] | Some s \<Rightarrow> s)"
    by simp
  have c: "(if camera_type = SEEK_CAMERA_PRO then new_pro ?D [] else new_compact ?D []) = Some ?c"
    by (simp add: sim_defs)
  have o: "cam_open ?D ?c = (True, ?c\<lparr>sim_is_open := True\<rparr>)"
    by (simp add: sim_defs)
  have r: "cam_read ?D (?c\<lparr>sim_is_open := True\<rparr>) Mat_empty =
      (True, ?c\<lparr>sim_is_open := True, sim_script := script\<rparr>, m)"
    by (simp add: sim_defs)
  from seek_open_succeeds [OF f c o r, of world0] show ?thesis
    by (simp add: world0_def)
qed

lemma opened_eq:
  "opened (Some m # script) =
     \<lparr>live = [1 \<mapsto> \<lparr>compact = Some \<lparr>sim_kind = CompactObj, sim_ffc = [], sim_opens = True,
                                         sim_is_open = True, sim_script = script\<rparr>,
                       pro = None, camera = Some CompactObj, frame = m,
                       width = cols m, height = rows m\<rparr>],
      brk = 2, cells = [10 \<mapsto> 0, 11 \<mapsto> 0],
      bufs = [20 \<mapsto> [0, 0, 0, 0, 0, 0, 0, 0]],
      trace = [CamNew (Addr 1) CompactObj [] True, CamOpen (Addr 1) True, CamRead (Addr 1) True]\<rparr>"
  by (simp add: opened_def seek_open_scripted SEEK_CAMERA_PRO_def)

lemma opened_handle:
  "live (opened (Some m # script)) 1 =
     Some \<lparr>compact = Some \<lparr>sim_kind = CompactObj, sim_ffc = [], sim_opens = True,
                               sim_is_open = True, sim_script = script\<rparr>,
            pro = None, camera = Some CompactObj, frame = m, width = cols m, height = rows m\<rparr>"
  by (simp add: opened_eq)

lemma opened_camera:
  "camera_obj \<lparr>compact = Some c, pro = None, camera = Some CompactObj, frame = m,
      width = x, height = y\<rparr> = Some c"
  by (simp add: camera_obj_def)

lemma opened_buffer: "bufs (opened (Some m # script)) 20 = Some [0, 0, 0, 0, 0, 0, 0, 0]"
  by (simp add: opened_eq)

lemma sim_cam_read: "cam_read (cam_scripted script) = sim_read"
  by (simp add: cam_scripted_def sim_driver_def)

lemmas read_eval = seek_read_frame_def camera_obj_def camera_obj_update_def
  sim_cam_read sim_read_def put_handle_def log_event_def memcpy_u16_def INT_MIN_def INT_MAX_def
  frame23_def frame11_def Let_def

lemma closed_eq:
  "closed (Some m # script) =
     \<lparr>live = Map.empty, brk = 2, cells = [10 \<mapsto> 0, 11 \<mapsto> 0],
      bufs = [20 \<mapsto> [0, 0, 0, 0, 0, 0, 0, 0]],
      trace = [CamNew (Addr 1) CompactObj [] True, CamOpen (Addr 1) True, CamRead (Addr 1) True,
               CamClose (Addr 1), CamDelete (Addr 1) CompactObj]\<rparr>"
proof -
  let ?c = "\<lparr>sim_kind = CompactObj, sim_ffc = [], sim_opens = True, sim_is_open = True,
       sim_script = script\<rparr>"
  let ?H = "\<lparr>compact = Some ?c, pro = None, camera = Some CompactObj, frame = m,
       width = cols m, height = rows m\<rparr>"
  have H: "live (opened (Some m # script)) 1 = Some ?H"
    by (simp add: opened_eq)
  have c: "camera_obj ?H = Some ?c"
    by (simp add: camera_obj_def)
  from seek_close_live [OF H c, of "cam_scripted (Some m # script)"] show ?thesis
    by (simp add: closed_def opened_eq delete_events_def)
qed

lemma Mat_ok_frame23: "Mat_ok frame23"
  by (simp add: Mat_ok_def frame23_def INT_MAX_def)

lemma Mat_ok_frame11: "Mat_ok frame11"
  by (simp add: Mat_ok_def frame11_def INT_MAX_def)

section \<open>The claims\<close>

subsection \<open>C1: seek\_open is all or nothing\<close>

text \<open>
  Claim C1. For every \<open>camera_type\<close> and \<open>ffc_path\<close>, \<open>seek_open\<close> returns null exactly
  when a step fails: the constructor throws, \<open>open()\<close> returns false, or the warm-up
  \<open>read\<close> returns false. When it returns null everything it allocated is released: the
  handle is deleted (the allocated handles are those from before the call), a camera
  object that was constructed is deleted, and a device that was opened is closed before
  that; the caller's memory is untouched. A non-null return is the new handle, with its
  camera object in place and with width and height taken from the matrix that the
  successful warm-up read delivered.
\<close>

theorem seek_open_all_or_nothing:
  assumes ok: "heap_ok w"
    and ffc: "ffc = (case ffc_path of None \<Rightarrow> [] | Some s \<Rightarrow> s)"
    and ctor: "ctor = (if camera_type = SEEK_CAMERA_PRO then new_pro drv ffc else new_compact drv ffc)"
    and kind: "kind = (if camera_type = SEEK_CAMERA_PRO then ProObj else CompactObj)"
    and run: "seek_open drv w camera_type ffc_path = (h, w')"
  shows "(h = NULL \<longleftrightarrow>
            ctor = None \<or>
            (\<exists>c. ctor = Some c \<and>
               (\<not> fst (cam_open drv c) \<or> \<not> fst (cam_read drv (snd (cam_open drv c)) Mat_empty)))) \<and>
         (h = NULL \<longrightarrow>
            live w' = live w \<and> cells w' = cells w \<and> bufs w' = bufs w \<and>
            (trace w' = trace w @ [CamNew (Addr (brk w)) kind ffc False] \<or>
             trace w' = trace w @ [CamNew (Addr (brk w)) kind ffc True, CamOpen (Addr (brk w)) False,
                                   CamDelete (Addr (brk w)) kind] \<or>
             trace w' = trace w @ [CamNew (Addr (brk w)) kind ffc True, CamOpen (Addr (brk w)) True,
                                   CamRead (Addr (brk w)) False, CamClose (Addr (brk w)),
                                   CamDelete (Addr (brk w)) kind])) \<and>
         (h \<noteq> NULL \<longrightarrow>
            h = Addr (brk w) \<and>
            (\<exists>c c1 c2 m H.
               ctor = Some c \<and> cam_open drv c = (True, c1) \<and>
               cam_read drv c1 Mat_empty = (True, c2, m) \<and>
               live w' (brk w) = Some H \<and> camera H = Some kind \<and> camera_obj H = Some c2 \<and>
               frame H = m \<and> width H = cols m \<and> height H = rows m) \<and>
            (\<forall>a. a \<noteq> brk w \<longrightarrow> live w' a = live w a) \<and>
            cells w' = cells w \<and> bufs w' = bufs w \<and>
            trace w' = trace w @ [CamNew (Addr (brk w)) kind ffc True, CamOpen (Addr (brk w)) True,
                                  CamRead (Addr (brk w)) True])"
proof (cases ctor)
  case None
  then have "(if camera_type = SEEK_CAMERA_PRO then new_pro drv ffc else new_compact drv ffc) = None"
    using ctor by simp
  from seek_open_throws [OF ffc this, of w] run None kind heap_ok_fresh [OF ok]
  show ?thesis by auto
next
  case (Some c)
  then have c: "(if camera_type = SEEK_CAMERA_PRO then new_pro drv ffc else new_compact drv ffc) = Some c"
    using ctor by simp
  obtain opened c1 where o: "cam_open drv c = (opened, c1)"
    by (cases "cam_open drv c")
  show ?thesis
  proof (cases opened)
    case False
    with o have "cam_open drv c = (False, c1)" by simp
    from seek_open_open_fails [OF ffc c this, of w] run Some kind o False heap_ok_fresh [OF ok]
    show ?thesis by auto
  next
    case True
    with o have o': "cam_open drv c = (True, c1)" by simp
    obtain got c2 m where r: "cam_read drv c1 Mat_empty = (got, c2, m)"
      by (cases "cam_read drv c1 Mat_empty")
    show ?thesis
    proof (cases got)
      case False
      with r have "cam_read drv c1 Mat_empty = (False, c2, m)" by simp
      from seek_open_read_fails [OF ffc c o' this, of w] run Some kind o' r False heap_ok_fresh [OF ok]
      show ?thesis by auto
    next
      case True
      with r have r': "cam_read drv c1 Mat_empty = (True, c2, m)" by simp
      from seek_open_succeeds [OF ffc c o' this, of w] run Some kind o' r'
      show ?thesis by (auto simp: camera_obj_def)
    qed
  qed
qed

text \<open>
  On the scripted camera: a Pro camera whose warm-up read fails, a camera that does not
  open and a constructor that throws all give null and leave no handle behind; a camera
  that delivers a 2 by 3 frame gives a handle with width 3 and height 2.
\<close>

theorem seek_open_all_or_nothing_witness:
  "heap_ok world0 \<and>
   fst (seek_open (sim_driver True True [None]) world0 1 (Some ''cal'')) = NULL \<and>
   live (snd (seek_open (sim_driver True True [None]) world0 1 (Some ''cal''))) = live world0 \<and>
   fst (seek_open (sim_driver True False []) world0 0 None) = NULL \<and>
   live (snd (seek_open (sim_driver True False []) world0 0 None)) = live world0 \<and>
   fst (seek_open (sim_driver False True []) world0 0 None) = NULL \<and>
   live (snd (seek_open (sim_driver False True []) world0 0 None)) = live world0 \<and>
   fst (seek_open (cam_scripted [Some frame23]) world0 0 None) = Addr 1 \<and>
   geometry (snd (seek_open (cam_scripted [Some frame23]) world0 0 None)) 1 = Some (3, 2)"
proof -
  note T = seek_open_all_or_nothing [OF heap_ok_world0 refl refl refl prod.collapse [symmetric]]
  let ?A = "sim_driver True True [None]"
  have a: "fst (seek_open ?A world0 1 (Some ''cal'')) = NULL"
    using T [of ?A 1 "Some ''cal''"] by (simp add: sim_defs SEEK_CAMERA_PRO_def)
  have a': "live (snd (seek_open ?A world0 1 (Some ''cal''))) = live world0"
    using T [of ?A 1 "Some ''cal''"] a by simp
  let ?B = "sim_driver True False []"
  have b: "fst (seek_open ?B world0 0 None) = NULL"
    using T [of ?B 0 None] by (simp add: sim_defs SEEK_CAMERA_PRO_def)
  have b': "live (snd (seek_open ?B world0 0 None)) = live world0"
    using T [of ?B 0 None] b by simp
  let ?C = "sim_driver False True []"
  have c: "fst (seek_open ?C world0 0 None) = NULL"
    using T [of ?C 0 None] by (simp add: sim_defs SEEK_CAMERA_PRO_def)
  have c': "live (snd (seek_open ?C world0 0 None)) = live world0"
    using T [of ?C 0 None] c by simp
  let ?D = "cam_scripted [Some frame23]"
  have d: "fst (seek_open ?D world0 0 None) \<noteq> NULL"
    using T [of ?D 0 None] by (simp add: sim_defs SEEK_CAMERA_PRO_def)
  have d1: "fst (seek_open ?D world0 0 None) = Addr 1"
    using T [of ?D 0 None] d by (simp add: world0_def)
  have d2: "geometry (snd (seek_open ?D world0 0 None)) 1 = Some (3, 2)"
    using T [of ?D 0 None] d by (auto simp: sim_defs SEEK_CAMERA_PRO_def geometry_def Mat_empty_def)
  from heap_ok_world0 a a' b b' c c' d1 d2 show ?thesis
    by simp
qed

subsection \<open>C2: what a successful seek\_read\_frame writes\<close>

text \<open>
  Claim C2, as amended. \<open>seek_read_frame\<close> takes the pixel count from the frame it has
  just read, \<open>rows * cols\<close> of that frame, not from the width and height stored at open,
  and it does not compare the two. For an allocated handle, a well-formed frame delivered
  by the read, and a buffer with room for \<open>capacity\<close> samples where \<open>capacity\<close> is at least
  that pixel count, the call returns the pixel count and the buffer then starts with
  exactly the frame's samples, row after row (sample \<open>r * cols + c\<close> is element (r, c)),
  followed by what it held before; no other buffer changes. The count is
  \<open>width * height\<close> whenever the frame has the geometry established at open.
\<close>

theorem seek_read_frame_writes_frame:
  assumes H: "live w a = Some H" and c: "camera_obj H = Some c"
    and rd: "cam_read drv c (frame H) = (True, c1, m)" and m: "Mat_ok m"
    and dst: "bufs w b = Some dst" and room: "capacity \<le> int (length dst)"
    and cap: "rows m * cols m \<le> capacity" "0 < capacity"
  shows "\<exists>w'. seek_read_frame drv w (Addr a) (Addr b) capacity = Inr (rows m * cols m, w') \<and>
     bufs w' b = Some (data m @ drop (length (data m)) dst) \<and>
     int (length (data m)) = rows m * cols m \<and>
     (\<forall>r c. 0 \<le> r \<and> r < rows m \<and> 0 \<le> c \<and> c < cols m \<longrightarrow>
        (data m @ drop (length (data m)) dst) ! nat (r * cols m + c) = Mat_at m r c) \<and>
     (\<forall>b'. b' \<noteq> b \<longrightarrow> bufs w' b' = bufs w b') \<and>
     (cols m = width H \<and> rows m = height H \<longrightarrow> rows m * cols m = width H * height H)"
proof -
  from m have len: "int (length (data m)) = rows m * cols m"
    by (simp add: Mat_ok_def)
  then have n: "nat (rows m * cols m) = length (data m)"
    by simp
  from cap(1) room have "rows m * cols m \<le> int (length dst)"
    by simp
  note run = seek_read_frame_copies [OF H c rd cap(2) cap(1) m dst this]
  have at: "(data m @ drop (length (data m)) dst) ! nat (r * cols m + c) = Mat_at m r c"
    if "0 \<le> r" "r < rows m" "0 \<le> c" "c < cols m" for r c
    using Mat_ok_index [OF m that] by (simp add: nth_append Mat_at_def)
  have geo: "cols m = width H \<and> rows m = height H \<longrightarrow> rows m * cols m = width H * height H"
    by (simp add: mult.commute)
  show ?thesis
    using run [unfolded n] len at geo by simp
qed

text \<open>
  On the scripted camera: opened on a single-sample frame, the next read delivers the 2 by
  3 frame; with capacity 7 the call returns 6 and the eight-sample buffer holds the six
  samples and two untouched zeros.
\<close>

theorem seek_read_frame_writes_frame_witness:
  "status (seek_read_frame (cam_scripted [Some frame11, Some frame23])
     (opened [Some frame11, Some frame23]) (Addr 1) (Addr 20) 7) = Inr 6 \<and>
   bufs (after world0 (seek_read_frame (cam_scripted [Some frame11, Some frame23])
     (opened [Some frame11, Some frame23]) (Addr 1) (Addr 20) 7)) 20 =
     Some [11, 12, 13, 21, 22, 23, 0, 0] \<and>
   Mat_at frame23 1 2 = 23"
proof -
  let ?S = "[Some frame11, Some frame23]"
  let ?c1 = "\<lparr>sim_kind = CompactObj, sim_ffc = [], sim_opens = True, sim_is_open = True,
       sim_script = []\<rparr>"
  have rd: "cam_read (cam_scripted ?S) \<lparr>sim_kind = CompactObj, sim_ffc = [], sim_opens = True,
       sim_is_open = True, sim_script = [Some frame23]\<rparr>
      (frame \<lparr>compact = Some \<lparr>sim_kind = CompactObj, sim_ffc = [], sim_opens = True,
                               sim_is_open = True, sim_script = [Some frame23]\<rparr>,
            pro = None, camera = Some CompactObj, frame = frame11, width = cols frame11,
            height = rows frame11\<rparr>) = (True, ?c1, frame23)"
    by (simp add: sim_cam_read sim_read_def)
  have room: "(7::int) \<le> int (length [0::16 word, 0, 0, 0, 0, 0, 0, 0])"
    by simp
  have cap: "rows frame23 * cols frame23 \<le> 7" "(0::int) < 7"
    by (simp_all add: frame23_def)
  from seek_read_frame_writes_frame [OF opened_handle opened_camera rd Mat_ok_frame23
      opened_buffer room cap]
  obtain w' where
    run: "seek_read_frame (cam_scripted ?S) (opened ?S) (Addr 1) (Addr 20) 7 =
      Inr (rows frame23 * cols frame23, w')" and
    buf: "bufs w' 20 = Some (data frame23 @ drop (length (data frame23)) [0, 0, 0, 0, 0, 0, 0, 0])" and
    at: "\<forall>r c. 0 \<le> r \<and> r < rows frame23 \<and> 0 \<le> c \<and> c < cols frame23 \<longrightarrow>
        (data frame23 @ drop (length (data frame23)) [0, 0, 0, 0, 0, 0, 0, 0]) !
          nat (r * cols frame23 + c) = Mat_at frame23 r c"
    by blast
  from at [rule_format, of 1 2] have "Mat_at frame23 1 2 = 23"
    by (simp add: frame23_def)
  with run buf show ?thesis
    by (simp add: status_def after_def frame23_def)
qed

text \<open>
  Claim C2 as the specification states it fails on the code. The handle is opened with
  geometry 3 by 2, the next read delivers a single-sample frame, and the call with
  capacity 8, which is at least 3 * 2, succeeds: it returns 1, not 6, and writes one
  sample.
\<close>

theorem seek_read_frame_count_counterexample:
  "geometry (opened [Some frame23, Some frame11]) 1 = Some (3, 2) \<and>
   status (seek_read_frame (cam_scripted [Some frame23, Some frame11])
     (opened [Some frame23, Some frame11]) (Addr 1) (Addr 20) 8) = Inr 1 \<and>
   bufs (after world0 (seek_read_frame (cam_scripted [Some frame23, Some frame11])
     (opened [Some frame23, Some frame11]) (Addr 1) (Addr 20) 8)) 20 =
     Some [99, 0, 0, 0, 0, 0, 0, 0]"
  by (simp add: opened_eq geometry_def seek_read_frame_def camera_obj_def camera_obj_update_def
      sim_cam_read sim_read_def put_handle_def log_event_def memcpy_u16_def INT_MIN_def INT_MAX_def
      frame23_def frame11_def status_def after_def Let_def)

subsection \<open>C3: a capacity below width * height\<close>




subsection \<open>C4: the return codes of seek\_read\_frame\<close>

text \<open>
  Claim C4. On a null or allocated handle, and with a buffer that is null or has room for
  \<open>capacity\<close> samples, \<open>seek_read_frame\<close> returns, and what it returns is one of -1, -2,
  -3 or a non-negative pixel count:
  \<^item> -1 exactly when the handle is null, the buffer is null or \<open>capacity\<close> is not positive;
  \<^item> -2 exactly when the arguments are valid and the device read fails;
  \<^item> -3 exactly when the read succeeds and \<open>capacity\<close> is less than the pixel count
    \<open>rows * cols\<close> of the frame just read;
  \<^item> the pixel count of that frame, which is not negative, otherwise.
\<close>

theorem seek_read_frame_codes:
  assumes h: "handle = NULL \<or>
      (\<exists>a H c. handle = Addr a \<and> live w a = Some H \<and> camera_obj H = Some c \<and>
         cam_read drv c (frame H) = (got, c1, m) \<and> (got \<longrightarrow> Mat_ok m))"
    and b: "out_buffer = NULL \<or>
      (\<exists>b dst. out_buffer = Addr b \<and> bufs w b = Some dst \<and> capacity \<le> int (length dst))"
  shows "\<exists>r w'. seek_read_frame drv w handle out_buffer capacity = Inr (r, w') \<and>
     (r = - 1 \<longleftrightarrow> handle = NULL \<or> out_buffer = NULL \<or> capacity \<le> 0) \<and>
     (r = - 2 \<longleftrightarrow> handle \<noteq> NULL \<and> out_buffer \<noteq> NULL \<and> 0 < capacity \<and> \<not> got) \<and>
     (r = - 3 \<longleftrightarrow> handle \<noteq> NULL \<and> out_buffer \<noteq> NULL \<and> 0 < capacity \<and> got \<and>
        capacity < rows m * cols m) \<and>
     (0 \<le> r \<longleftrightarrow> handle \<noteq> NULL \<and> out_buffer \<noteq> NULL \<and> 0 < capacity \<and> got \<and>
        rows m * cols m \<le> capacity) \<and>
     (0 \<le> r \<longrightarrow> r = rows m * cols m) \<and>
     (r = - 1 \<or> r = - 2 \<or> r = - 3 \<or> 0 \<le> r)"
proof (cases "handle = NULL \<or> out_buffer = NULL \<or> capacity \<le> 0")
  case True
  from seek_read_frame_invalid [OF this] True show ?thesis by auto
next
  case False
  then have cap: "0 < capacity" and hn: "handle \<noteq> NULL" and bn: "out_buffer \<noteq> NULL"
    by auto
  from h hn obtain a H c where a: "handle = Addr a" "live w a = Some H" "camera_obj H = Some c"
    "cam_read drv c (frame H) = (got, c1, m)" "got \<longrightarrow> Mat_ok m"
    by auto
  from b bn obtain bb dst where bb: "out_buffer = Addr bb" "bufs w bb = Some dst"
    "capacity \<le> int (length dst)"
    by auto
  show ?thesis
  proof (cases got)
    case False
    with a have "cam_read drv c (frame H) = (False, c1, m)" by simp
    from seek_read_frame_read_fails [OF a(2,3) this cap, of bb] a(1) bb(1) False cap
    show ?thesis by auto
  next
    case True
    with a have r: "cam_read drv c (frame H) = (True, c1, m)" and mo: "Mat_ok m" by simp_all
    show ?thesis
    proof (cases "capacity < rows m * cols m")
      case True
      from mo have "rows m * cols m \<le> INT_MAX" by (simp add: Mat_ok_def)
      from seek_read_frame_too_small [OF a(2,3) r cap True this, of bb] a(1) bb(1) \<open>got\<close> cap True
      show ?thesis by auto
    next
      case False
      then have le: "rows m * cols m \<le> capacity" by simp
      with bb(3) have "rows m * cols m \<le> int (length dst)" by simp
      from seek_read_frame_copies [OF a(2,3) r cap le mo bb(2) this] a(1) bb(1) \<open>got\<close> cap le mo
      show ?thesis by (auto simp: Mat_ok_def)
    qed
  qed
qed

text \<open>On the scripted camera, one call for each of the four results.\<close>

theorem seek_read_frame_codes_witness:
  "status (seek_read_frame (cam_scripted [Some frame23, Some frame11]) (opened [Some frame23, Some frame11])
      (Addr 1) (Addr 20) 8) = Inr 1 \<and>
   status (seek_read_frame (cam_scripted [Some frame23, Some frame23]) (opened [Some frame23, Some frame23])
      (Addr 1) (Addr 20) 5) = Inr (- 3) \<and>
   status (seek_read_frame (cam_scripted [Some frame23, None]) (opened [Some frame23, None])
      (Addr 1) (Addr 20) 8) = Inr (- 2) \<and>
   status (seek_read_frame (cam_scripted [Some frame23]) (opened [Some frame23]) NULL (Addr 20) 8) = Inr (- 1)"
proof -
  let ?c = "\<lambda>s. \<lparr>sim_kind = CompactObj, sim_ffc = [], sim_opens = True, sim_is_open = True,
       sim_script = s\<rparr>"
  have b: "Addr 20 = NULL \<or> (\<exists>b dst. Addr 20 = Addr b \<and> bufs (opened (Some frame23 # s)) b = Some dst \<and>
      n \<le> int (length dst))" if "n \<le> 8" for s n
    using that by (simp add: opened_eq)
  have h1: "Addr 1 = NULL \<or> (\<exists>a H c. Addr 1 = Addr a \<and> live (opened [Some frame23, Some frame11]) a = Some H \<and>
      camera_obj H = Some c \<and>
      cam_read (cam_scripted [Some frame23, Some frame11]) c (frame H) = (True, ?c [], frame11) \<and>
      (True \<longrightarrow> Mat_ok frame11))"
    by (simp add: opened_eq camera_obj_def sim_defs Mat_ok_def INT_MAX_def)
  have h2: "Addr 1 = NULL \<or> (\<exists>a H c. Addr 1 = Addr a \<and> live (opened [Some frame23, Some frame23]) a = Some H \<and>
      camera_obj H = Some c \<and>
      cam_read (cam_scripted [Some frame23, Some frame23]) c (frame H) = (True, ?c [], frame23) \<and>
      (True \<longrightarrow> Mat_ok frame23))"
    by (simp add: opened_eq camera_obj_def sim_defs Mat_ok_def INT_MAX_def)
  have h3: "Addr 1 = NULL \<or> (\<exists>a H c. Addr 1 = Addr a \<and> live (opened [Some frame23, None]) a = Some H \<and>
      camera_obj H = Some c \<and>
      cam_read (cam_scripted [Some frame23, None]) c (frame H) = (False, ?c [], frame23) \<and>
      (False \<longrightarrow> Mat_ok frame23))"
    by (simp add: opened_eq camera_obj_def sim_defs)
  have h4: "NULL = NULL \<or> (\<exists>a H c. NULL = Addr a \<and> live (opened [Some frame23]) a = Some H \<and>
      camera_obj H = Some c \<and>
      cam_read (cam_scripted [Some frame23]) c (frame H) = (False, ?c [], frame23) \<and>
      (False \<longrightarrow> Mat_ok frame23))"
    by simp
  from seek_read_frame_codes [OF h1 b [of 8]] have 1: "status (seek_read_frame
      (cam_scripted [Some frame23, Some frame11]) (opened [Some frame23, Some frame11])
      (Addr 1) (Addr 20) 8) = Inr 1"
    by (auto simp: status_def frame11_def)
  from seek_read_frame_codes [OF h2 b [of 5]] have 2: "status (seek_read_frame
      (cam_scripted [Some frame23, Some frame23]) (opened [Some frame23, Some frame23])
      (Addr 1) (Addr 20) 5) = Inr (- 3)"
    by (auto simp: status_def frame23_def)
  from seek_read_frame_codes [OF h3 b [of 8]] have 3: "status (seek_read_frame
      (cam_scripted [Some frame23, None]) (opened [Some frame23, None])
      (Addr 1) (Addr 20) 8) = Inr (- 2)"
    by (auto simp: status_def)
  from seek_read_frame_codes [OF h4 b [of 8]] have 4: "status (seek_read_frame
      (cam_scripted [Some frame23]) (opened [Some frame23]) NULL (Addr 20) 8) = Inr (- 1)"
    by (auto simp: status_def)
  from 1 2 3 4 show ?thesis by simp
qed

subsection \<open>C5: the reported geometry is fixed at open\<close>

text \<open>
  Claim C5. For a handle returned by a successful \<open>seek_open\<close>, \<open>seek_get_dimensions\<close>
  reports as width and height the \<open>cols\<close> and \<open>rows\<close> of the matrix that the warm-up read
  of that \<open>seek_open\<close> delivered, and it reports the same after any sequence of
  \<open>seek_read_frame\<close> calls, on this or any other handle, whatever those calls return.
\<close>

theorem seek_dimensions_fixed:
  assumes opn: "seek_open drv w camera_type ffc_path = (Addr a, w1)"
    and reads: "run_reads drv w1 calls = Inr w2"
    and ffc: "ffc = (case ffc_path of None \<Rightarrow> [] | Some s \<Rightarrow> s)"
    and pw: "pw \<in> dom (cells w1)" and ph: "ph \<in> dom (cells w1)"
  shows "\<exists>c c1 c2 m.
      (if camera_type = SEEK_CAMERA_PRO then new_pro drv ffc else new_compact drv ffc) = Some c \<and>
      cam_open drv c = (True, c1) \<and> cam_read drv c1 Mat_empty = (True, c2, m) \<and>
      seek_get_dimensions w1 (Addr a) (Addr pw) (Addr ph) =
        Inr (1, w1\<lparr>cells := (cells w1)(pw \<mapsto> cols m, ph \<mapsto> rows m)\<rparr>) \<and>
      seek_get_dimensions w2 (Addr a) (Addr pw) (Addr ph) =
        Inr (1, w2\<lparr>cells := (cells w2)(pw \<mapsto> cols m, ph \<mapsto> rows m)\<rparr>)"
proof -
  let ?ctor = "if camera_type = SEEK_CAMERA_PRO then new_pro drv ffc else new_compact drv ffc"
  have nn: "fst (seek_open drv w camera_type ffc_path) \<noteq> NULL"
    using opn by simp
  obtain c where c: "?ctor = Some c"
  proof (cases ?ctor)
    case None
    from seek_open_throws [OF ffc this, of w] nn show ?thesis by simp
  next
    case (Some c)
    then show ?thesis by (rule that)
  qed
  obtain ok c1 where o: "cam_open drv c = (ok, c1)"
    by (cases "cam_open drv c")
  have ok: ok
  proof (rule ccontr)
    assume "\<not> ok"
    with o have "cam_open drv c = (False, c1)" by simp
    from seek_open_open_fails [OF ffc c this, of w] nn show False by simp
  qed
  with o have o': "cam_open drv c = (True, c1)" by simp
  obtain got c2 m where r: "cam_read drv c1 Mat_empty = (got, c2, m)"
    by (cases "cam_read drv c1 Mat_empty")
  have got: got
  proof (rule ccontr)
    assume "\<not> got"
    with r have "cam_read drv c1 Mat_empty = (False, c2, m)" by simp
    from seek_open_read_fails [OF ffc c o' this, of w] nn show False by simp
  qed
  with r have r': "cam_read drv c1 Mat_empty = (True, c2, m)" by simp
  from seek_open_succeeds [OF ffc c o' r', of w] opn
  have g1: "geometry w1 a = Some (cols m, rows m)"
    by (auto simp: geometry_def)
  from run_reads_geometry [OF reads] g1
  have g2: "geometry w2 a = Some (cols m, rows m)" and cl: "cells w2 = cells w1"
    by simp_all
  from g1 obtain H1 where H1: "live w1 a = Some H1" "width H1 = cols m" "height H1 = rows m"
    by (auto simp: geometry_def split: option.splits)
  from g2 obtain H2 where H2: "live w2 a = Some H2" "width H2 = cols m" "height H2 = rows m"
    by (auto simp: geometry_def split: option.splits)
  have d1: "seek_get_dimensions w1 (Addr a) (Addr pw) (Addr ph) =
        Inr (1, w1\<lparr>cells := (cells w1)(pw \<mapsto> cols m, ph \<mapsto> rows m)\<rparr>)"
    using seek_get_dimensions_ok [OF H1(1) pw ph] H1 by simp
  have d2: "seek_get_dimensions w2 (Addr a) (Addr pw) (Addr ph) =
        Inr (1, w2\<lparr>cells := (cells w2)(pw \<mapsto> cols m, ph \<mapsto> rows m)\<rparr>)"
    using seek_get_dimensions_ok [OF H2(1), of pw ph] pw ph cl H2 by simp
  from c o' r' d1 d2 show ?thesis
    by blast
qed

text \<open>
  On the scripted camera: opened on the 2 by 3 frame, then one read that delivers a
  single-sample frame and one that fails. The handle's frame is the single sample, and
  the reported dimensions are 3 and 2 before and after.
\<close>

theorem seek_dimensions_fixed_witness:
  "cells (after world0 (seek_get_dimensions (opened [Some frame23, Some frame11, None])
      (Addr 1) (Addr 10) (Addr 11))) = [10 \<mapsto> 3, 11 \<mapsto> 2] \<and>
   map_option frame (live (projr (run_reads (cam_scripted [Some frame23, Some frame11, None])
      (opened [Some frame23, Some frame11, None])
      [(Addr 1, Addr 20, 8), (Addr 1, Addr 20, 8)])) 1) = Some frame11 \<and>
   cells (after world0 (seek_get_dimensions
      (projr (run_reads (cam_scripted [Some frame23, Some frame11, None])
         (opened [Some frame23, Some frame11, None])
         [(Addr 1, Addr 20, 8), (Addr 1, Addr 20, 8)]))
      (Addr 1) (Addr 10) (Addr 11))) = [10 \<mapsto> 3, 11 \<mapsto> 2]"
proof -
  let ?S = "[Some frame23, Some frame11, None]"
  let ?D = "cam_scripted ?S"
  let ?calls = "[(Addr 1, Addr 20, 8 :: int), (Addr 1, Addr 20, 8)]"
  define W1 where "W1 = opened ?S"
  define W2 where "W2 = projr (run_reads ?D (opened ?S) ?calls)"
  have opn: "seek_open ?D world0 0 None = (Addr 1, W1)"
    by (simp add: W1_def opened_eq seek_open_scripted SEEK_CAMERA_PRO_def)
  have run: "run_reads ?D W1 ?calls = Inr W2"
    by (simp add: W1_def W2_def opened_eq read_eval)
  have fr: "map_option frame (live W2 1) = Some frame11"
    by (simp add: W2_def opened_eq read_eval)
  have cw: "cells W1 = [10 \<mapsto> 0, 11 \<mapsto> 0]" "cells W2 = [10 \<mapsto> 0, 11 \<mapsto> 0]"
    by (simp_all add: W1_def W2_def opened_eq read_eval)
  have p: "10 \<in> dom (cells W1)" "11 \<in> dom (cells W1)"
    by (simp_all add: cw)
  from seek_dimensions_fixed [OF opn run refl p]
  have "seek_get_dimensions W1 (Addr 1) (Addr 10) (Addr 11) =
        Inr (1, W1\<lparr>cells := (cells W1)(10 \<mapsto> 3, 11 \<mapsto> 2)\<rparr>) \<and>
      seek_get_dimensions W2 (Addr 1) (Addr 10) (Addr 11) =
        Inr (1, W2\<lparr>cells := (cells W2)(10 \<mapsto> 3, 11 \<mapsto> 2)\<rparr>)"
    by (auto simp: sim_defs SEEK_CAMERA_PRO_def Mat_empty_def)
  then have "cells (after world0 (seek_get_dimensions W1 (Addr 1) (Addr 10) (Addr 11))) =
        [10 \<mapsto> 3, 11 \<mapsto> 2] \<and>
      cells (after world0 (seek_get_dimensions W2 (Addr 1) (Addr 10) (Addr 11))) =
        [10 \<mapsto> 3, 11 \<mapsto> 2]"
    by (simp add: after_def cw)
  with fr show ?thesis
    unfolding W1_def W2_def by blast
qed

subsection \<open>C6: no latch after a failed read\<close>

text \<open>
  Claim C6, as amended. The wrapper has no closed or failed state for a handle and no
  session-closed code. After a \<open>seek_read_frame\<close> call that returned -2 the handle is
  still allocated with its camera object, and every later call with a non-null buffer and
  a positive capacity asks the device for a frame again; its result is decided by that
  read alone: -2 when it fails, -3 or the pixel count when it succeeds.
\<close>

theorem seek_read_frame_no_latch:
  assumes "seek_read_frame drv w (Addr a) out_buffer capacity = Inr (- 2, w1)"
  shows "\<exists>H1 c. live w1 a = Some H1 \<and> camera_obj H1 = Some c \<and>
     (\<forall>b n got c' m. 0 < n \<and> cam_read drv c (frame H1) = (got, c', m) \<longrightarrow>
        (\<not> got \<longrightarrow>
           (\<exists>w2. seek_read_frame drv w1 (Addr a) (Addr b) n = Inr (- 2, w2) \<and>
                 trace w2 = trace w1 @ [CamRead (Addr a) False])) \<and>
        (got \<and> Mat_ok m \<and> n < rows m * cols m \<longrightarrow>
           (\<exists>w2. seek_read_frame drv w1 (Addr a) (Addr b) n = Inr (- 3, w2) \<and>
                 trace w2 = trace w1 @ [CamRead (Addr a) True])) \<and>
        (got \<and> Mat_ok m \<and> rows m * cols m \<le> n \<and>
           (\<exists>dst. bufs w1 b = Some dst \<and> n \<le> int (length dst)) \<longrightarrow>
           (\<exists>w2. seek_read_frame drv w1 (Addr a) (Addr b) n = Inr (rows m * cols m, w2) \<and>
                 trace w2 = trace w1 @ [CamRead (Addr a) True])))"
proof -
  from seek_read_frame_inv [OF assms] obtain H c0 c1 m0 where
    H: "live w a = Some H" "camera_obj H = Some c0" and
    w1: "live w1 = (live w)(a \<mapsto> camera_obj_update c1 (H\<lparr>frame := m0\<rparr>))"
    by auto
  let ?H1 = "camera_obj_update c1 (H\<lparr>frame := m0\<rparr>)"
  from w1 have H1: "live w1 a = Some ?H1" by simp
  from H(2) have "camera_obj (H\<lparr>frame := m0\<rparr>) = Some c0"
    by (auto simp: camera_obj_def split: option.splits SeekCamRef.splits)
  then have c1: "camera_obj ?H1 = Some c1"
    by (rule camera_obj_update_obj)
  have "(\<not> got \<longrightarrow>
           (\<exists>w2. seek_read_frame drv w1 (Addr a) (Addr b) n = Inr (- 2, w2) \<and>
                 trace w2 = trace w1 @ [CamRead (Addr a) False])) \<and>
        (got \<and> Mat_ok m \<and> n < rows m * cols m \<longrightarrow>
           (\<exists>w2. seek_read_frame drv w1 (Addr a) (Addr b) n = Inr (- 3, w2) \<and>
                 trace w2 = trace w1 @ [CamRead (Addr a) True])) \<and>
        (got \<and> Mat_ok m \<and> rows m * cols m \<le> n \<and>
           (\<exists>dst. bufs w1 b = Some dst \<and> n \<le> int (length dst)) \<longrightarrow>
           (\<exists>w2. seek_read_frame drv w1 (Addr a) (Addr b) n = Inr (rows m * cols m, w2) \<and>
                 trace w2 = trace w1 @ [CamRead (Addr a) True]))"
    if n: "0 < n" and rd: "cam_read drv c1 (frame ?H1) = (got, c', m)" for b n got c' m
  proof (cases got)
    case False
    with rd have "cam_read drv c1 (frame ?H1) = (False, c', m)" by simp
    from seek_read_frame_read_fails [OF H1 c1 this n, of b] False show ?thesis
      by simp
  next
    case True
    with rd have r: "cam_read drv c1 (frame ?H1) = (True, c', m)" by simp
    have small: "\<exists>w2. seek_read_frame drv w1 (Addr a) (Addr b) n = Inr (- 3, w2) \<and>
                 trace w2 = trace w1 @ [CamRead (Addr a) True]"
      if "Mat_ok m" "n < rows m * cols m"
    proof -
      from that(1) have "rows m * cols m \<le> INT_MAX" by (simp add: Mat_ok_def)
      from seek_read_frame_too_small [OF H1 c1 r n that(2) this, of b] show ?thesis
        by simp
    qed
    have copy: "\<exists>w2. seek_read_frame drv w1 (Addr a) (Addr b) n = Inr (rows m * cols m, w2) \<and>
                 trace w2 = trace w1 @ [CamRead (Addr a) True]"
      if "Mat_ok m" "rows m * cols m \<le> n" "bufs w1 b = Some dst" "n \<le> int (length dst)" for dst
    proof -
      from that(2,4) have "rows m * cols m \<le> int (length dst)" by simp
      from seek_read_frame_copies [OF H1 c1 r n that(2) that(1) that(3) this] show ?thesis
        by simp
    qed
    from True small copy show ?thesis
      by blast
  qed
  with H1 c1 show ?thesis
    by blast
qed

text \<open>
  On the scripted camera: the first read after open fails, the second delivers a
  single-sample frame; the calls return -2 and then 1.
\<close>

theorem seek_read_frame_no_latch_witness:
  "status (seek_read_frame (cam_scripted [Some frame23, None, Some frame11])
     (opened [Some frame23, None, Some frame11]) (Addr 1) (Addr 20) 8) = Inr (- 2) \<and>
   status (seek_read_frame (cam_scripted [Some frame23, None, Some frame11])
     (after world0 (seek_read_frame (cam_scripted [Some frame23, None, Some frame11])
        (opened [Some frame23, None, Some frame11]) (Addr 1) (Addr 20) 8))
     (Addr 1) (Addr 20) 8) = Inr 1"
proof -
  let ?S = "[Some frame23, None, Some frame11]"
  let ?D = "cam_scripted ?S"
  let ?c = "\<lambda>s. \<lparr>sim_kind = CompactObj, sim_ffc = [], sim_opens = True, sim_is_open = True,
       sim_script = s\<rparr>"
  let ?W1 = "after world0 (seek_read_frame ?D (opened ?S) (Addr 1) (Addr 20) 8)"
  have first: "seek_read_frame ?D (opened ?S) (Addr 1) (Addr 20) 8 = Inr (- 2, ?W1)"
    by (simp add: opened_eq read_eval after_def)
  have H1: "live ?W1 1 = Some \<lparr>compact = Some (?c [Some frame11]), pro = None,
      camera = Some CompactObj, frame = frame23, width = 3, height = 2\<rparr>"
    by (simp add: opened_eq read_eval after_def)
  have buf: "bufs ?W1 20 = Some [0, 0, 0, 0, 0, 0, 0, 0]"
    by (simp add: opened_eq read_eval after_def)
  from seek_read_frame_no_latch [OF first] obtain H c where
    Hc: "live ?W1 1 = Some H" "camera_obj H = Some c" and
    nxt: "\<And>b n got c' m. 0 < n \<Longrightarrow> cam_read ?D c (frame H) = (got, c', m) \<Longrightarrow>
        got \<Longrightarrow> Mat_ok m \<Longrightarrow> rows m * cols m \<le> n \<Longrightarrow>
        bufs ?W1 b = Some dst \<Longrightarrow> n \<le> int (length dst) \<Longrightarrow>
        \<exists>w2. seek_read_frame ?D ?W1 (Addr 1) (Addr b) n = Inr (rows m * cols m, w2)" for dst
    by (elim exE conjE) blast
  from Hc H1 have c: "c = ?c [Some frame11]" and fH: "frame H = frame23"
    by (auto simp: camera_obj_def)
  have rd: "cam_read ?D c (frame H) = (True, ?c [], frame11)"
    by (simp add: c fH sim_cam_read sim_read_def)
  from nxt [OF _ rd _ Mat_ok_frame11 _ buf, of 8]
  obtain w2 where "seek_read_frame ?D ?W1 (Addr 1) (Addr 20) 8 = Inr (rows frame11 * cols frame11, w2)"
    by (auto simp: frame11_def)
  then have s2: "status (seek_read_frame ?D ?W1 (Addr 1) (Addr 20) 8) = Inr 1"
    by (simp add: status_def frame11_def)
  have s1: "status (seek_read_frame ?D (opened ?S) (Addr 1) (Addr 20) 8) = Inr (- 2)"
    by (subst first) (simp add: status_def)
  from s1 s2 show ?thesis
    by (rule conjI)
qed

text \<open>
  Claim C6 as the specification states it fails on the code: after a call that failed
  with -2, the next call on the same handle reads from the device (the last call to the
  library is a \<open>read\<close> that succeeded) and returns the six pixels of the frame.
\<close>

theorem seek_read_frame_latch_counterexample:
  "status (seek_read_frame (cam_scripted [Some frame23, None, Some frame23])
     (opened [Some frame23, None, Some frame23]) (Addr 1) (Addr 20) 8) = Inr (- 2) \<and>
   status (seek_read_frame (cam_scripted [Some frame23, None, Some frame23])
     (after world0 (seek_read_frame (cam_scripted [Some frame23, None, Some frame23])
        (opened [Some frame23, None, Some frame23]) (Addr 1) (Addr 20) 8))
     (Addr 1) (Addr 20) 8) = Inr 6 \<and>
   trace (after world0 (seek_read_frame (cam_scripted [Some frame23, None, Some frame23])
     (after world0 (seek_read_frame (cam_scripted [Some frame23, None, Some frame23])
        (opened [Some frame23, None, Some frame23]) (Addr 1) (Addr 20) 8))
     (Addr 1) (Addr 20) 8)) =
     [CamNew (Addr 1) CompactObj [] True, CamOpen (Addr 1) True, CamRead (Addr 1) True,
      CamRead (Addr 1) False, CamRead (Addr 1) True]"
  by (simp add: opened_eq seek_read_frame_def camera_obj_def camera_obj_update_def
      sim_cam_read sim_read_def put_handle_def log_event_def memcpy_u16_def INT_MIN_def INT_MAX_def
      frame23_def status_def after_def Let_def)

subsection \<open>C7: seek\_close\<close>

text \<open>
  A handle that \<open>seek_open\<close> returned owns exactly one camera object, the one
  \<open>handle->camera\<close> points to; the other \<open>unique_ptr\<close> is empty.
\<close>

lemma seek_open_owns_one:
  assumes opn: "seek_open drv w camera_type ffc_path = (Addr a, w')"
  shows "\<exists>H k c. live w' a = Some H \<and> camera H = Some k \<and> camera_obj H = Some c \<and>
    (case k of CompactObj \<Rightarrow> pro H | ProObj \<Rightarrow> compact H) = None"
proof -
  define ffc where ffc: "ffc = (case ffc_path of None \<Rightarrow> [] | Some s \<Rightarrow> s)"
  let ?ctor = "if camera_type = SEEK_CAMERA_PRO then new_pro drv ffc else new_compact drv ffc"
  have nn: "fst (seek_open drv w camera_type ffc_path) \<noteq> NULL"
    using opn by simp
  obtain c where c: "?ctor = Some c"
  proof (cases ?ctor)
    case None
    from seek_open_throws [OF ffc this, of w] nn show ?thesis by simp
  next
    case (Some c)
    then show ?thesis by (rule that)
  qed
  obtain ok c1 where o: "cam_open drv c = (ok, c1)"
    by (cases "cam_open drv c")
  have ok: ok
  proof (rule ccontr)
    assume "\<not> ok"
    with o have "cam_open drv c = (False, c1)" by simp
    from seek_open_open_fails [OF ffc c this, of w] nn show False by simp
  qed
  with o have o': "cam_open drv c = (True, c1)" by simp
  obtain got c2 m where r: "cam_read drv c1 Mat_empty = (got, c2, m)"
    by (cases "cam_read drv c1 Mat_empty")
  have got: got
  proof (rule ccontr)
    assume "\<not> got"
    with r have "cam_read drv c1 Mat_empty = (False, c2, m)" by simp
    from seek_open_read_fails [OF ffc c o' this, of w] nn show False by simp
  qed
  with r have r': "cam_read drv c1 Mat_empty = (True, c2, m)" by simp
  from seek_open_succeeds [OF ffc c o' r', of w] opn show ?thesis
    by (auto simp: camera_obj_def)
qed

text \<open>
  Claim C7, as amended. \<open>seek_close\<close> on a null handle does nothing and never errors. On
  an allocated handle that owns one camera object, which \<open>handle->camera\<close> points to, it
  makes exactly two calls to the library, \<open>close()\<close> on the camera and then the deletion
  of that camera object, frees the handle, and leaves the caller's memory alone. The
  wrapper keeps no record of closed handles: afterwards the pointer is dangling, and a
  second \<open>seek_close\<close> on it reads \<open>handle->camera\<close> from freed storage (and would delete
  the handle again), which is undefined behaviour.
\<close>

theorem seek_close_once:
  "seek_close drv w NULL = Inr w \<and>
   (live w a = Some H \<and> camera H = Some k \<and> camera_obj H = Some c \<and>
    (case k of CompactObj \<Rightarrow> pro H | ProObj \<Rightarrow> compact H) = None \<longrightarrow>
      (\<exists>w'. seek_close drv w (Addr a) = Inr w' \<and>
            live w' = (live w)(a := None) \<and> cells w' = cells w \<and> bufs w' = bufs w \<and>
            trace w' = trace w @ [CamClose (Addr a), CamDelete (Addr a) k] \<and>
            seek_close drv w' (Addr a) = Inl UseAfterFree))"
proof (intro conjI impI)
  show "seek_close drv w NULL = Inr w"
    by (rule seek_close_null)
next
  assume "live w a = Some H \<and> camera H = Some k \<and> camera_obj H = Some c \<and>
    (case k of CompactObj \<Rightarrow> pro H | ProObj \<Rightarrow> compact H) = None"
  then have H: "live w a = Some H" "camera_obj H = Some c" and k: "camera H = Some k"
    and other: "(case k of CompactObj \<Rightarrow> pro H | ProObj \<Rightarrow> compact H) = None"
    by simp_all
  have ev: "delete_events a H = [CamDelete (Addr a) k]"
    using H(2) k other by (cases k) (simp_all add: delete_events_def camera_obj_def)
  let ?w' = "w\<lparr>live := (live w)(a := None),
           trace := trace w @ CamClose (Addr a) # delete_events a H\<rparr>"
  have "live ?w' a = None" by simp
  from seek_close_live [OF H, of drv] seek_close_dangling [OF this, of drv] ev
  show "\<exists>w'. seek_close drv w (Addr a) = Inr w' \<and>
            live w' = (live w)(a := None) \<and> cells w' = cells w \<and> bufs w' = bufs w \<and>
            trace w' = trace w @ [CamClose (Addr a), CamDelete (Addr a) k] \<and>
            seek_close drv w' (Addr a) = Inl UseAfterFree"
    by simp
qed

text \<open>
  On the scripted camera: close on null; close once, after which the handle is gone and
  the calls to the library end with one \<open>close()\<close> and one deletion of the compact
  camera; close again.
\<close>

theorem seek_close_once_witness:
  "seek_close (cam_scripted [Some frame11]) (opened [Some frame11]) NULL =
     Inr (opened [Some frame11]) \<and>
   seek_close (cam_scripted [Some frame11]) (opened [Some frame11]) (Addr 1) =
     Inr (closed [Some frame11]) \<and>
   live (closed [Some frame11]) = Map.empty \<and>
   bufs (closed [Some frame11]) = bufs (opened [Some frame11]) \<and>
   trace (closed [Some frame11]) =
     [CamNew (Addr 1) CompactObj [] True, CamOpen (Addr 1) True, CamRead (Addr 1) True,
      CamClose (Addr 1), CamDelete (Addr 1) CompactObj] \<and>
   seek_close (cam_scripted [Some frame11]) (closed [Some frame11]) (Addr 1) = Inl UseAfterFree"
proof -
  let ?D = "cam_scripted [Some frame11]"
  let ?W = "opened [Some frame11]"
  have pre: "live ?W 1 = Some (the (live ?W 1)) \<and>
      camera (the (live ?W 1)) = Some CompactObj \<and>
      camera_obj (the (live ?W 1)) = Some (the (compact (the (live ?W 1)))) \<and>
      (case CompactObj of CompactObj \<Rightarrow> pro (the (live ?W 1))
         | ProObj \<Rightarrow> compact (the (live ?W 1))) = None"
    by (simp add: opened_eq camera_obj_def)
  note T = seek_close_once [of ?D ?W 1 "the (live ?W 1)" CompactObj
      "the (compact (the (live ?W 1)))"]
  from T have n: "seek_close ?D ?W NULL = Inr ?W"
    by (rule conjunct1)
  from T [THEN conjunct2, THEN mp, OF pre] obtain w' where
    w': "seek_close ?D ?W (Addr 1) = Inr w'"
      "live w' = (live ?W)(1 := None)"
      "bufs w' = bufs ?W"
      "trace w' = trace ?W @ [CamClose (Addr 1), CamDelete (Addr 1) CompactObj]"
      "seek_close ?D w' (Addr 1) = Inl UseAfterFree"
    by (elim exE conjE)
  from w'(1) have "closed [Some frame11] = w'"
    by (simp add: closed_def)
  with n w' show ?thesis
    by (simp add: opened_eq)
qed

text \<open>
  Claim C7 as the specification states it fails on the code: the second \<open>seek_close\<close> on
  the same handle is a use of freed storage.
\<close>

theorem seek_close_twice_counterexample:
  "seek_close (cam_scripted [Some frame23]) (opened [Some frame23]) (Addr 1) =
     Inr (closed [Some frame23]) \<and>
   seek_close (cam_scripted [Some frame23]) (closed [Some frame23]) (Addr 1) = Inl UseAfterFree"
  by (simp add: closed_eq opened_eq seek_close_def camera_obj_def camera_obj_update_def
      put_handle_def log_event_def delete_handle_def delete_events_def Let_def
      cam_scripted_def sim_driver_def)

subsection \<open>C8: seek\_get\_dimensions after seek\_close\<close>

text \<open>
  Claim C8, as amended. \<open>seek_get_dimensions\<close> returns the failure flag 0 only when the
  handle or an output pointer is null; it cannot tell a closed handle from an open one.
  After \<open>seek_close\<close> on an allocated handle, \<open>seek_get_dimensions\<close> on the same pointer
  reads \<open>handle->width\<close> from freed storage, which is undefined behaviour, and is not the
  failure flag.
\<close>

theorem seek_get_dimensions_after_close:
  "(live w a = Some H \<and> camera_obj H = Some c \<longrightarrow>
      (\<exists>w'. seek_close drv w (Addr a) = Inr w' \<and>
            seek_get_dimensions w' (Addr a) (Addr pw) (Addr ph) = Inl UseAfterFree)) \<and>
   (seek_get_dimensions v handle width_p height_p = Inr (0, v') \<longrightarrow>
      handle = NULL \<or> width_p = NULL \<or> height_p = NULL)"
proof (intro conjI impI)
  assume "live w a = Some H \<and> camera_obj H = Some c"
  then have H: "live w a = Some H" "camera_obj H = Some c" by simp_all
  let ?w' = "w\<lparr>live := (live w)(a := None),
           trace := trace w @ CamClose (Addr a) # delete_events a H\<rparr>"
  have "live ?w' a = None" by simp
  from seek_close_live [OF H, of drv] seek_get_dimensions_dangling [OF this, of pw ph]
  show "\<exists>w'. seek_close drv w (Addr a) = Inr w' \<and>
            seek_get_dimensions w' (Addr a) (Addr pw) (Addr ph) = Inl UseAfterFree"
    by simp
next
  assume "seek_get_dimensions v handle width_p height_p = Inr (0, v')"
  then show "handle = NULL \<or> width_p = NULL \<or> height_p = NULL"
    by (rule seek_get_dimensions_zero)
qed

text \<open>On the scripted camera: the closed handle, and a null handle for comparison.\<close>

theorem seek_get_dimensions_after_close_witness:
  "seek_get_dimensions (closed [Some frame11]) (Addr 1) (Addr 11) (Addr 10) = Inl UseAfterFree \<and>
   seek_get_dimensions (closed [Some frame11]) NULL (Addr 11) (Addr 10) =
     Inr (0, closed [Some frame11])"
proof -
  let ?D = "cam_scripted [Some frame11]"
  let ?W = "opened [Some frame11]"
  have pre: "live ?W 1 = Some (the (live ?W 1)) \<and>
      camera_obj (the (live ?W 1)) = Some (the (compact (the (live ?W 1))))"
    by (simp add: opened_eq camera_obj_def)
  note T = seek_get_dimensions_after_close [of ?W 1 "the (live ?W 1)"
      "the (compact (the (live ?W 1)))" ?D 11 10 "closed [Some frame11]" NULL "Addr 11" "Addr 10"
      "closed [Some frame11]"]
  from T [THEN conjunct1, THEN mp, OF pre] obtain w' where
    w': "seek_close ?D ?W (Addr 1) = Inr w'"
      "seek_get_dimensions w' (Addr 1) (Addr 11) (Addr 10) = Inl UseAfterFree"
    by (elim exE conjE)
  from w'(1) have "closed [Some frame11] = w'"
    by (simp add: closed_def)
  with w'(2) T [THEN conjunct2] show ?thesis
    by (simp add: seek_get_dimensions_def)
qed

text \<open>
  Claim C8 as the specification states it fails on the code: after \<open>seek_close\<close> the call
  does not return 0, it uses freed storage.
\<close>

theorem seek_get_dimensions_closed_counterexample:
  "seek_close (cam_scripted [Some frame23]) (opened [Some frame23]) (Addr 1) =
     Inr (closed [Some frame23]) \<and>
   seek_get_dimensions (closed [Some frame23]) (Addr 1) (Addr 10) (Addr 11) = Inl UseAfterFree"
  by (simp add: closed_eq opened_eq seek_close_def camera_obj_def camera_obj_update_def
      put_handle_def log_event_def delete_handle_def delete_events_def Let_def
      cam_scripted_def sim_driver_def seek_get_dimensions_def)

subsection \<open>C9: every camera type but 1 is Compact\<close>

text \<open>
  Claim C9. Every \<open>camera_type\<close> other than 1 (\<open>SEEK_CAMERA_PRO\<close>), the values 2 and -1
  among them, is treated as the Compact variant: \<open>seek_open\<close> does exactly what it does
  for 0 (\<open>SEEK_CAMERA_COMPACT\<close>), and the constructor it calls is the one of the compact
  class. No value is rejected.
\<close>

theorem seek_open_default_compact:
  assumes "camera_type \<noteq> SEEK_CAMERA_PRO"
  shows "seek_open drv w camera_type ffc_path = seek_open drv w SEEK_CAMERA_COMPACT ffc_path \<and>
    (\<exists>ok evs. trace (snd (seek_open drv w camera_type ffc_path)) =
       trace w @ CamNew (Addr (brk w)) CompactObj (case ffc_path of None \<Rightarrow> [] | Some s \<Rightarrow> s) ok # evs)"
proof
  show "seek_open drv w camera_type ffc_path = seek_open drv w SEEK_CAMERA_COMPACT ffc_path"
    by (simp only: seek_open_def construct_not_pro [OF assms])
  show "\<exists>ok evs. trace (snd (seek_open drv w camera_type ffc_path)) =
       trace w @ CamNew (Addr (brk w)) CompactObj (case ffc_path of None \<Rightarrow> [] | Some s \<Rightarrow> s) ok # evs"
    using seek_open_trace_head [of drv w camera_type ffc_path] assms by simp
qed

text \<open>On the scripted camera: camera types 2 and -1 open a compact camera.\<close>

theorem seek_open_default_compact_witness:
  "(2::int) \<noteq> SEEK_CAMERA_PRO \<and> - 1 \<noteq> SEEK_CAMERA_PRO \<and>
   seek_open (cam_scripted [Some frame23]) world0 2 None = (Addr 1, opened [Some frame23]) \<and>
   seek_open (cam_scripted [Some frame23]) world0 (- 1) None = (Addr 1, opened [Some frame23]) \<and>
   map_option camera (live (opened [Some frame23]) 1) = Some (Some CompactObj)"
proof -
  have ne: "(2::int) \<noteq> SEEK_CAMERA_PRO" "(- 1::int) \<noteq> SEEK_CAMERA_PRO"
    by (simp_all add: SEEK_CAMERA_PRO_def)
  have o: "seek_open (cam_scripted [Some frame23]) world0 SEEK_CAMERA_COMPACT None =
      (Addr 1, opened [Some frame23])"
    by (simp add: opened_eq seek_open_scripted SEEK_CAMERA_PRO_def SEEK_CAMERA_COMPACT_def)
  show ?thesis
    using ne o seek_open_default_compact [OF ne(1), of "cam_scripted [Some frame23]" world0 None]
      seek_open_default_compact [OF ne(2), of "cam_scripted [Some frame23]" world0 None]
    by (simp add: opened_eq)
qed

subsection \<open>C10: seek\_get\_dimensions\<close>

text \<open>
  Claim C10. \<open>seek_get_dimensions\<close> returns the failure flag 0 and leaves the memory as it
  was, \<open>*width\<close> and \<open>*height\<close> included, whenever the handle or one of the two output
  pointers is null. For an allocated handle and output pointers to \<open>int\<close> objects it
  stores the handle's width through \<open>width\<close>, then its height through \<open>height\<close>, changes
  nothing else and returns 1.
\<close>

theorem seek_get_dimensions_flag:
  "(handle = NULL \<or> width_p = NULL \<or> height_p = NULL \<longrightarrow>
      seek_get_dimensions w handle width_p height_p = Inr (0, w)) \<and>
   (handle = Addr a \<and> width_p = Addr pw \<and> height_p = Addr ph \<and> live w a = Some H
      \<and> pw \<in> dom (cells w) \<and> ph \<in> dom (cells w) \<longrightarrow>
      seek_get_dimensions w handle width_p height_p =
        Inr (1, w\<lparr>cells := (cells w)(pw \<mapsto> width H, ph \<mapsto> height H)\<rparr>))"
  by (auto simp: seek_get_dimensions_def store_int_def split: ptr.splits)

text \<open>On the scripted camera: a null handle, and the handle opened on the 2 by 3 frame.\<close>

theorem seek_get_dimensions_flag_witness:
  "seek_get_dimensions (opened [Some frame23]) NULL (Addr 10) (Addr 11) =
     Inr (0, opened [Some frame23]) \<and>
   status (seek_get_dimensions (opened [Some frame23]) (Addr 1) (Addr 10) (Addr 11)) = Inr 1 \<and>
   cells (after world0 (seek_get_dimensions (opened [Some frame23]) (Addr 1) (Addr 10) (Addr 11))) =
     [10 \<mapsto> 3, 11 \<mapsto> 2]"
  using seek_get_dimensions_flag [of NULL "Addr 10" "Addr 11" "opened [Some frame23]"]
    seek_get_dimensions_flag [of "Addr 1" "Addr 10" "Addr 11" "opened [Some frame23]" 1 10 11
      "the (live (opened [Some frame23]) 1)"]
  by (simp add: opened_eq status_def after_def frame23_def)

end
